theory Spec2Isabelle
  imports Complex_Main
begin

section \<open>JavaScript values as the components receive them\<close>

text \<open>
  Station records come from an untrusted feed, so every field of a record is a dynamically
  typed value: the TypeScript interface \<^verbatim>\<open>ChargingStation\<close> is erased at run time and
  \<^verbatim>\<open>validateStation\<close> inspects the run-time tags with \<^verbatim>\<open>typeof\<close>. The values are
  those a feed can deliver: \<^verbatim>\<open>undefined\<close> (a missing property), \<^verbatim>\<open>null\<close>, booleans,
  numbers, strings, arrays, and plain objects, given by their own properties in order. No
  value is a function, so a property of an object is never callable.

  A string is a list of code units; a \<^typ>\<open>char\<close> stands for one code unit below
  \<^verbatim>\<open>0x100\<close> (so U+00A0, the no-break space, is \<open>CHR 0xA0\<close>). Code units above that
  range are outside the model.

  A finite number is written \<open>Fin m e\<close>, the decimal \<open>m * 10^e\<close>: every binary64 value is
  denoted by the decimal that \<^verbatim>\<open>Number.prototype.toString\<close> prints for it (its shortest
  decimal that reads back as the same number), so \<^verbatim>\<open>25.7617\<close> is \<open>Fin 257617 (-4)\<close>.
  Comparison with \<^verbatim>\<open>-90, 90, -180, 180\<close> (which are their own decimals) is then the
  comparison of the decimals. Zero carries no sign: \<^verbatim>\<open>String(-0)\<close> is \<^verbatim>\<open>"0"\<close> and
  \<^verbatim>\<open>-0 < 0\<close> is false, so the program cannot tell the two zeros apart.
\<close>

datatype jsnum = NaN | PosInf | NegInf | Fin int int

datatype jsval =
    JUndefined
  | JNull
  | JBool bool
  | JNum jsnum
  | JStr string
  | JArr "jsval list"
  | JObj "(string \<times> jsval) list"

datatype error = TypeError

fun typeof :: "jsval \<Rightarrow> string" where
  "typeof JUndefined = ''undefined''"
| "typeof JNull = ''object''"
| "typeof (JBool b) = ''boolean''"
| "typeof (JNum n) = ''number''"
| "typeof (JStr s) = ''string''"
| "typeof (JArr xs) = ''object''"
| "typeof (JObj ps) = ''object''"

fun Array_isArray :: "jsval \<Rightarrow> bool" where
  "Array_isArray (JArr xs) = True"
| "Array_isArray v = False"

subsection \<open>Numbers\<close>

definition dec_value :: "int \<Rightarrow> int \<Rightarrow> rat" where
  "dec_value m e = (if 0 \<le> e then of_int m * 10 ^ nat e else of_int m / 10 ^ nat (- e))"

text \<open>The relational operator \<^verbatim>\<open><\<close> on numbers: false as soon as one side is NaN.\<close>

fun num_less :: "jsnum \<Rightarrow> jsnum \<Rightarrow> bool" where
  "num_less NaN y = False"
| "num_less x NaN = False"
| "num_less PosInf y = False"
| "num_less x NegInf = False"
| "num_less NegInf y = True"
| "num_less x PosInf = True"
| "num_less (Fin m e) (Fin m' e') = (dec_value m e < dec_value m' e')"

fun isNaN :: "jsnum \<Rightarrow> bool" where
  "isNaN NaN = True"
| "isNaN x = False"

text \<open>Decimal digits of a natural number, most significant first.\<close>

definition digit_char :: "nat \<Rightarrow> char" where
  "digit_char d = ''0123456789'' ! d"

fun digits10 :: "nat \<Rightarrow> string" where
  "digits10 n = (if n < 10 then [digit_char n]
                 else digits10 (n div 10) @ [digit_char (n mod 10)])"

declare digits10.simps [simp del]

text \<open>
  \<open>strip_zeros\<close> brings a non-zero decimal to the form \<^verbatim>\<open>Number::toString\<close> works on: a
  digit string \<open>s\<close> that does not end in 0, of \<open>k\<close> digits, and the exponent.
\<close>

function strip_zeros :: "nat \<Rightarrow> int \<Rightarrow> nat \<times> int" where
  "strip_zeros s e = (if s \<noteq> 0 \<and> s mod 10 = 0 then strip_zeros (s div 10) (e + 1) else (s, e))"
  by pat_completeness auto
termination
  by (relation "measure (\<lambda>(s, e). s)") auto

declare strip_zeros.simps [simp del]

text \<open>
  \<^verbatim>\<open>Number::toString(x)\<close> in radix 10 for a positive finite \<open>x = s * 10^(n - k)\<close>, in the
  four layouts of ECMAScript: integer with trailing zeros, decimal point inside the digits,
  leading \<^verbatim>\<open>0.000\<close>, and exponent notation.
\<close>

definition layout :: "nat \<Rightarrow> int \<Rightarrow> string" where
  "layout s e =
     (let ds = digits10 s;
          k = int (length ds);
          n = e + k
      in if k \<le> n \<and> n \<le> 21 then ds @ replicate (nat (n - k)) CHR ''0''
         else if 0 < n \<and> n \<le> 21 then take (nat n) ds @ ''.'' @ drop (nat n) ds
         else if - 6 < n \<and> n \<le> 0 then ''0.'' @ replicate (nat (- n)) CHR ''0'' @ ds
         else (let x = n - 1;
                   c = (if x < 0 then ''-'' else ''+'');
                   xs = digits10 (nat \<bar>x\<bar>)
               in if k = 1 then ds @ ''e'' @ c @ xs
                  else take 1 ds @ ''.'' @ drop 1 ds @ ''e'' @ c @ xs))"

definition positive_toString :: "nat \<Rightarrow> int \<Rightarrow> string" where
  "positive_toString s0 e0 = (let (s, e) = strip_zeros s0 e0 in layout s e)"

fun Number_toString :: "jsnum \<Rightarrow> string" where
  "Number_toString NaN = ''NaN''"
| "Number_toString PosInf = ''Infinity''"
| "Number_toString NegInf = ''-Infinity''"
| "Number_toString (Fin m e) =
     (if m = 0 then ''0''
      else if m < 0 then ''-'' @ positive_toString (nat (- m)) e
      else positive_toString (nat m) e)"

subsection \<open>Conversion to text\<close>

text \<open>
  \<^verbatim>\<open>String(v)\<close> and the template literal \<^verbatim>\<open>`${v}`\<close> both apply ToString, which can
  raise. An array joins the texts of its elements with commas, from left to right,
  \<^verbatim>\<open>null\<close> and \<^verbatim>\<open>undefined\<close> elements printing as nothing; the first element whose
  conversion raises ends the call. An object is converted through its \<^verbatim>\<open>toString\<close>
  method and, failing that, its \<^verbatim>\<open>valueOf\<close>: without an own property \<^verbatim>\<open>toString\<close> it
  inherits the method that prints \<^verbatim>\<open>[object Object]\<close>; with one, which is not callable,
  \<^verbatim>\<open>valueOf\<close> is tried, and it is either an own property, not callable either, or the
  inherited method, which returns the object and no text: TypeError is raised.
\<close>

fun join_comma :: "string list \<Rightarrow> string" where
  "join_comma [] = []"
| "join_comma [x] = x"
| "join_comma (x # y # ys) = x @ '','' @ join_comma (y # ys)"

text \<open>The results of a sequence of calls, or the first error among them.\<close>

fun first_error :: "(error + 'a) list \<Rightarrow> error + 'a list" where
  "first_error [] = Inr []"
| "first_error (r # rs) =
     (case r of
        Inl e \<Rightarrow> Inl e
      | Inr x \<Rightarrow> (case first_error rs of Inl e \<Rightarrow> Inl e | Inr xs \<Rightarrow> Inr (x # xs)))"

fun ToString :: "jsval \<Rightarrow> error + string" where
  "ToString JUndefined = Inr ''undefined''"
| "ToString JNull = Inr ''null''"
| "ToString (JBool b) = Inr (if b then ''true'' else ''false'')"
| "ToString (JNum n) = Inr (Number_toString n)"
| "ToString (JStr s) = Inr s"
| "ToString (JArr xs) =
     map_sum id join_comma
       (first_error (map (\<lambda>x. if x = JUndefined \<or> x = JNull then Inr [] else ToString x) xs))"
| "ToString (JObj ps) =
     (if ''toString'' \<in> set (map fst ps) then Inl TypeError else Inr ''[object Object]'')"

subsection \<open>Reading a number from text\<close>

text \<open>
  \<^verbatim>\<open>parseFloat\<close> skips leading white space and reads the longest prefix that is a
  decimal literal: an optional sign, then \<^verbatim>\<open>Infinity\<close> or digits with an optional
  fraction and an optional exponent. With no such prefix the result is NaN. Otherwise the
  result is the binary64 value nearest to the mathematical value of the literal.

  \<open>literal_value\<close> is the first half: the mathematical value of the literal, as a decimal
  (zero as \<open>Fin 0 0\<close>, any other value with a last digit that is not 0). The rounding of
  that decimal to a binary64 value is left to the engine: it is the parameter
  \<open>to_binary64\<close> of \<open>parseFloat\<close>, a function from a decimal \<open>m * 10^e\<close> to a number
  (\<^verbatim>\<open>'90.00000000000000001'\<close> to 90, \<^verbatim>\<open>'1e-400'\<close> to 0, \<^verbatim>\<open>'1e999'\<close> to Infinity),
  of which nothing is assumed.
\<close>

text \<open>A call that may raise, followed by what is done with its result.\<close>

definition and_then :: "error + 'a \<Rightarrow> ('a \<Rightarrow> error + 'b) \<Rightarrow> error + 'b" where
  "and_then r f = (case r of Inl e \<Rightarrow> Inl e | Inr x \<Rightarrow> f x)"

definition isWhiteSpace :: "char \<Rightarrow> bool" where
  "isWhiteSpace c = (c \<in> set [CHR 0x09, CHR 0x0A, CHR 0x0B, CHR 0x0C, CHR 0x0D, CHR 0x20, CHR 0xA0])"

definition isDigit :: "char \<Rightarrow> bool" where
  "isDigit c = (c \<in> set ''0123456789'')"

definition digits_value :: "string \<Rightarrow> nat" where
  "digits_value ds = foldl (\<lambda>a c. 10 * a + (of_char c - 48)) 0 ds"

definition read_sign :: "string \<Rightarrow> bool \<times> string" where
  "read_sign s = (case s of
       c # cs \<Rightarrow> (if c = CHR ''-'' then (True, cs) else if c = CHR ''+'' then (False, cs) else (False, s))
     | [] \<Rightarrow> (False, s))"

definition exponent_part :: "string \<Rightarrow> int" where
  "exponent_part r = (case r of
       c # cs \<Rightarrow>
         (if c = CHR ''e'' \<or> c = CHR ''E'' then
            (let (neg, ds0) = read_sign cs; ds = takeWhile isDigit ds0
             in if ds = [] then 0
                else if neg then - int (digits_value ds) else int (digits_value ds))
          else 0)
     | [] \<Rightarrow> 0)"

definition make_finite :: "bool \<Rightarrow> nat \<Rightarrow> int \<Rightarrow> jsnum" where
  "make_finite neg s e =
     (if s = 0 then Fin 0 0
      else (let (s', e') = strip_zeros s e in Fin (if neg then - int s' else int s') e'))"

text \<open>The digits, fraction and exponent that follow the sign.\<close>

definition parse_unsigned :: "bool \<Rightarrow> string \<Rightarrow> jsnum" where
  "parse_unsigned neg s =
     (let ip = takeWhile isDigit s;
          r = dropWhile isDigit s;
          has_point = (r \<noteq> [] \<and> hd r = CHR ''.'');
          fp = (if has_point then takeWhile isDigit (tl r) else []);
          r' = (if has_point then dropWhile isDigit (tl r) else r)
      in if ip = [] \<and> fp = [] then NaN
         else make_finite neg (digits_value (ip @ fp)) (exponent_part r' - int (length fp)))"

definition literal_value :: "string \<Rightarrow> jsnum" where
  "literal_value inputString =
     (let trimmed = dropWhile isWhiteSpace inputString;
          (neg, s) = read_sign trimmed
      in if take 8 s = ''Infinity'' then (if neg then NegInf else PosInf)
         else parse_unsigned neg s)"

definition parseFloat :: "(int \<Rightarrow> int \<Rightarrow> jsnum) \<Rightarrow> string \<Rightarrow> jsnum" where
  "parseFloat to_binary64 inputString =
     (case literal_value inputString of
        Fin m e \<Rightarrow> to_binary64 m e
      | x \<Rightarrow> x)"

text \<open>
  \<^verbatim>\<open>parseFloat(String(v))\<close>, the expression the directions handler applies to both
  coordinate fields. When \<open>v\<close> is a number, \<^verbatim>\<open>String(v)\<close> is the decimal that names it:
  \<^verbatim>\<open>Number::toString\<close> prints digits whose Number value is \<open>v\<close>, so the nearest binary64
  value to the literal is \<open>v\<close> itself and the literal is read with no rounding. The text of
  any other value is read with the rounding of the engine.
\<close>

definition parseFloat_String :: "(int \<Rightarrow> int \<Rightarrow> jsnum) \<Rightarrow> jsval \<Rightarrow> error + jsnum" where
  "parseFloat_String to_binary64 v =
     (case v of
        JNum x \<Rightarrow> Inr (literal_value (Number_toString x))
      | _ \<Rightarrow> and_then (ToString v) (\<lambda>str. Inr (parseFloat to_binary64 str)))"

subsection \<open>String methods\<close>

definition toLower_char :: "char \<Rightarrow> char" where
  "toLower_char c =
     (let n = (of_char c :: nat)
      in if (65 \<le> n \<and> n \<le> 90) \<or> (192 \<le> n \<and> n \<le> 222 \<and> n \<noteq> 215) then char_of (n + 32) else c)"

definition toLowerCase :: "string \<Rightarrow> string" where
  "toLowerCase s = map toLower_char s"

text \<open>
  A method call on a value that is not a string: \<^verbatim>\<open>undefined\<close> and \<^verbatim>\<open>null\<close> have no
  properties, and the other values have no \<^verbatim>\<open>toLowerCase\<close>; both raise TypeError.
\<close>

fun call_toLowerCase :: "jsval \<Rightarrow> error + string" where
  "call_toLowerCase (JStr s) = Inr (toLowerCase s)"
| "call_toLowerCase v = Inl TypeError"

fun starts_with :: "string \<Rightarrow> string \<Rightarrow> bool" where
  "starts_with s [] = True"
| "starts_with [] (q # qs) = False"
| "starts_with (c # cs) (q # qs) = (c = q \<and> starts_with cs qs)"

text \<open>\<^verbatim>\<open>s.includes(q)\<close>: \<open>q\<close> occurs in \<open>s\<close> as a contiguous run.\<close>

fun includes_str :: "string \<Rightarrow> string \<Rightarrow> bool" where
  "includes_str [] q = (q = [])"
| "includes_str (c # cs) q = (starts_with (c # cs) q \<or> includes_str cs q)"

subsection \<open>Percent-encoding\<close>

text \<open>
  \<^verbatim>\<open>encodeURIComponent\<close> converts its argument to text and keeps the unreserved
  characters; every other code unit is written as the percent-escaped bytes of its UTF-8
  form (one byte below \<^verbatim>\<open>0x80\<close>, two bytes from there to \<^verbatim>\<open>0xFF\<close>).
\<close>

definition uriUnreserved :: "char \<Rightarrow> bool" where
  "uriUnreserved c =
     (c \<in> set (''ABCDEFGHIJKLMNOPQRSTUVWXYZabcdefghijklmnopqrstuvwxyz0123456789-_.!~*()'' @ [CHR 0x27]))"

definition hex_digit :: "nat \<Rightarrow> char" where
  "hex_digit d = ''0123456789ABCDEF'' ! d"

definition percent :: "nat \<Rightarrow> string" where
  "percent b = [CHR ''%'', hex_digit (b div 16), hex_digit (b mod 16)]"

definition encode_unit :: "char \<Rightarrow> string" where
  "encode_unit c =
     (if uriUnreserved c then [c]
      else (let n = (of_char c :: nat)
            in if n < 128 then percent n
               else percent (192 + n div 64) @ percent (128 + n mod 64)))"

definition Encode :: "string \<Rightarrow> string" where
  "Encode s = concat (map encode_unit s)"

definition encodeURIComponent :: "jsval \<Rightarrow> error + string" where
  "encodeURIComponent v = and_then (ToString v) (\<lambda>str. Inr (Encode str))"

text \<open>
  Percent-decoding, as \<^verbatim>\<open>decodeURIComponent\<close> does it: a code unit other than
  \<^verbatim>\<open>%\<close> stands for itself, \<^verbatim>\<open>%XX\<close> is a byte, and the bytes are read as UTF-8.
  The result is \<open>None\<close> where \<^verbatim>\<open>decodeURIComponent\<close> raises URIError (a broken escape
  or byte sequence) and where the decoded code point lies above \<^verbatim>\<open>0xFF\<close>.
\<close>

definition hex_value :: "char \<Rightarrow> nat option" where
  "hex_value c =
     (let n = (of_char c :: nat)
      in if 48 \<le> n \<and> n \<le> 57 then Some (n - 48)
         else if 65 \<le> n \<and> n \<le> 70 then Some (n - 55)
         else if 97 \<le> n \<and> n \<le> 102 then Some (n - 87)
         else None)"

definition read_escape :: "string \<Rightarrow> (nat \<times> string) option" where
  "read_escape s = (case s of
       c # h1 # h2 # rest \<Rightarrow>
         (if c = CHR ''%'' then
            (case (hex_value h1, hex_value h2) of
               (Some a, Some b) \<Rightarrow> Some (16 * a + b, rest)
             | _ \<Rightarrow> None)
          else None)
     | _ \<Rightarrow> None)"

lemma read_escape_shorter: "read_escape s = Some (b, rest) \<Longrightarrow> length rest < length s"
  by (auto simp: read_escape_def split: list.splits if_splits option.splits)

text \<open>One code unit from the front of the input, and the input that follows it.\<close>

definition decode_unit :: "string \<Rightarrow> (char \<times> string) option" where
  "decode_unit s = (case s of
       [] \<Rightarrow> None
     | c # cs \<Rightarrow>
         (if c \<noteq> CHR ''%'' then Some (c, cs)
          else (case read_escape s of
                  None \<Rightarrow> None
                | Some (b, rest) \<Rightarrow>
                    (if b < 128 then Some (char_of b, rest)
                     else if b = 194 \<or> b = 195 then
                       (case read_escape rest of
                          None \<Rightarrow> None
                        | Some (b', rest') \<Rightarrow>
                            (if 128 \<le> b' \<and> b' < 192
                             then Some (char_of ((b - 192) * 64 + (b' - 128)), rest')
                             else None))
                     else None))))"

lemma decode_unit_shorter: "decode_unit s = Some (u, rest) \<Longrightarrow> length rest < length s"
  unfolding decode_unit_def
  by (auto split: list.splits if_splits option.splits prod.splits
           dest!: read_escape_shorter)

function Decode :: "string \<Rightarrow> string option" where
  "Decode s =
     (if s = [] then Some []
      else (case decode_unit s of
              None \<Rightarrow> None
            | Some (u, rest) \<Rightarrow> map_option ((#) u) (Decode rest)))"
  by pat_completeness auto
termination
  by (relation "measure length") (auto dest: decode_unit_shorter)

declare Decode.simps [simp del]

subsection \<open>The DOM used by the sanitizer\<close>

text \<open>
  The sanitizer only ever builds a \<^verbatim>\<open>div\<close> whose children are text nodes. Setting
  \<^verbatim>\<open>textContent\<close> replaces the children by one text node (none for the empty string);
  reading \<^verbatim>\<open>innerHTML\<close> serializes the children, and the serialization of a text node
  escapes \<^verbatim>\<open>&\<close>, the no-break space, \<^verbatim>\<open><\<close> and \<^verbatim>\<open>>\<close>. Quotes are escaped only in
  attribute values, never in text.
\<close>

datatype node = Text string

record element =
  tagName :: string
  childNodes :: "node list"

definition createElement :: "string \<Rightarrow> element" where
  "createElement t = \<lparr>tagName = t, childNodes = []\<rparr>"

definition set_textContent :: "string \<Rightarrow> element \<Rightarrow> element" where
  "set_textContent str el = el\<lparr>childNodes := (if str = [] then [] else [Text str])\<rparr>"

definition escape_char :: "char \<Rightarrow> string" where
  "escape_char c =
     (if c = CHR ''&'' then ''&amp;''
      else if c = CHR 0xA0 then ''&nbsp;''
      else if c = CHR ''<'' then ''&lt;''
      else if c = CHR ''>'' then ''&gt;''
      else [c])"

definition escape_string :: "string \<Rightarrow> string" where
  "escape_string s = concat (map escape_char s)"

fun serialize_node :: "node \<Rightarrow> string" where
  "serialize_node (Text d) = escape_string d"

definition innerHTML :: "element \<Rightarrow> string" where
  "innerHTML el = concat (map serialize_node (childNodes el))"

section \<open>Station records, validation and sanitization\<close>

text \<open>
  A station record as received: an object whose ten properties hold any value (a missing
  property reads as \<^verbatim>\<open>undefined\<close>). The properties \<^verbatim>\<open>id\<close> and \<^verbatim>\<open>total\<close> are the
  fields \<open>id_st\<close> and \<open>total_st\<close>.
\<close>

record station =
  id_st :: jsval
  name :: jsval
  address :: jsval
  lat :: jsval
  lng :: jsval
  available :: jsval
  total_st :: jsval
  cost :: jsval
  amenities :: jsval
  status :: jsval

text \<open>\<^verbatim>\<open>xs.includes(v)\<close> on an array of string literals.\<close>

definition array_includes :: "jsval list \<Rightarrow> jsval \<Rightarrow> bool" where
  "array_includes xs v = (v \<in> set xs)"

definition validateStation :: "station \<Rightarrow> bool" where
  "validateStation station =
     (typeof (id_st station) = ''string'' \<and>
      typeof (name station) = ''string'' \<and>
      typeof (address station) = ''string'' \<and>
      typeof (lat station) = ''number'' \<and>
      typeof (lng station) = ''number'' \<and>
      typeof (available station) = ''number'' \<and>
      typeof (total_st station) = ''number'' \<and>
      typeof (cost station) = ''number'' \<and>
      Array_isArray (amenities station) \<and>
      array_includes [JStr ''available'', JStr ''busy'', JStr ''offline''] (status station))"

definition sanitizeText :: "jsval \<Rightarrow> error + string" where
  "sanitizeText text =
     and_then (ToString text) (\<lambda>str.
       let div0 = createElement ''div'';
           div1 = set_textContent str div0
       in Inr (innerHTML div1))"

section \<open>The map view\<close>

text \<open>
  The repository holds two versions of the map view. The first one below validates and
  sanitizes; the second one (\<^verbatim>\<open>src/components/MapView.tsx\<close>) does neither.
\<close>

text \<open>
  The icon of a station marker is a fixed \<^verbatim>\<open>div\<close> whose only varying part is the
  background colour, which is what \<open>createStationIcon\<close> returns here.
\<close>

definition createStationIcon :: "jsval \<Rightarrow> string" where
  "createStationIcon st =
     (let validStatuses = [JStr ''available'', JStr ''busy'', JStr ''offline''];
          safeStatus = (if array_includes validStatuses st then st else JStr ''offline'')
      in if safeStatus = JStr ''available'' then ''#10B981''
         else if safeStatus = JStr ''busy'' then ''#F59E0B''
         else ''#EF4444'')"

text \<open>
  The search predicate \<^verbatim>\<open>name.toLowerCase().includes(q) || address.toLowerCase().includes(q)\<close>:
  the right operand is evaluated only when the left one is false.
\<close>

definition matches_query :: "string \<Rightarrow> station \<Rightarrow> error + bool" where
  "matches_query q station =
     (case call_toLowerCase (name station) of
        Inl e \<Rightarrow> Inl e
      | Inr n \<Rightarrow>
          (if includes_str n q then Inr True
           else (case call_toLowerCase (address station) of
                   Inl e \<Rightarrow> Inl e
                 | Inr a \<Rightarrow> Inr (includes_str a q))))"

text \<open>\<^verbatim>\<open>filter\<close> with a callback that may raise: the first exception ends the call.\<close>

fun filter_raising :: "('a \<Rightarrow> error + bool) \<Rightarrow> 'a list \<Rightarrow> error + 'a list" where
  "filter_raising p [] = Inr []"
| "filter_raising p (x # xs) =
     (case p x of
        Inl e \<Rightarrow> Inl e
      | Inr b \<Rightarrow>
          (case filter_raising p xs of
             Inl e \<Rightarrow> Inl e
           | Inr ys \<Rightarrow> Inr (if b then x # ys else ys)))"

definition filteredStations :: "station list \<Rightarrow> string \<Rightarrow> error + station list" where
  "filteredStations stations searchQuery =
     and_then (sanitizeText (JStr searchQuery)) (\<lambda>sanitized.
       let sanitizedSearchQuery = toLowerCase sanitized
       in filter_raising (matches_query sanitizedSearchQuery) (filter validateStation stations))"

text \<open>
  The amenity tags of a station card: the first three elements of \<^verbatim>\<open>amenities\<close>, each
  sanitized. Only an array has both \<^verbatim>\<open>slice\<close> and \<^verbatim>\<open>map\<close>.
\<close>

definition amenity_tags :: "station \<Rightarrow> error + string list" where
  "amenity_tags station =
     (case amenities station of
        JArr xs \<Rightarrow> first_error (map sanitizeText (take 3 xs))
      | _ \<Rightarrow> Inl TypeError)"

text \<open>
  A marker handed to the map: its key, its position, its icon, and the record it was made
  from (the popup shows that record's fields and its button selects that record).
\<close>

record marker =
  marker_key :: jsval
  marker_position :: "jsval \<times> jsval"
  marker_icon :: string
  marker_station :: station

definition stationMarkers :: "station list \<Rightarrow> marker list" where
  "stationMarkers stations =
     map (\<lambda>station. \<lparr>marker_key = id_st station,
                      marker_position = (lat station, lng station),
                      marker_icon = createStationIcon (status station),
                      marker_station = station\<rparr>)
         (filter validateStation stations)"

subsection \<open>The version in \<^verbatim>\<open>src/components/MapView.tsx\<close>\<close>

definition createStationIcon_tsx :: "jsval \<Rightarrow> string" where
  "createStationIcon_tsx st =
     (if st = JStr ''available'' then ''#10B981''
      else if st = JStr ''busy'' then ''#F59E0B''
      else ''#EF4444'')"

definition filteredStations_tsx :: "station list \<Rightarrow> string \<Rightarrow> error + station list" where
  "filteredStations_tsx stations searchQuery =
     filter_raising (matches_query (toLowerCase searchQuery)) stations"

definition stationMarkers_tsx :: "station list \<Rightarrow> marker list" where
  "stationMarkers_tsx stations =
     map (\<lambda>station. \<lparr>marker_key = id_st station,
                      marker_position = (lat station, lng station),
                      marker_icon = createStationIcon_tsx (status station),
                      marker_station = station\<rparr>)
         stations"

section \<open>The station details view\<close>

text \<open>
  What a click handler does outside the React state: calls of \<^verbatim>\<open>console.error\<close> and of
  \<^verbatim>\<open>window.open\<close>, in order; or the exception that ends it.
\<close>

datatype effect = ConsoleError string | WindowOpen string string

definition handleGetDirections :: "(int \<Rightarrow> int \<Rightarrow> jsnum) \<Rightarrow> station \<Rightarrow> error + effect list" where
  "handleGetDirections to_binary64 station =
     and_then (parseFloat_String to_binary64 (lat station)) (\<lambda>lat_num.
     and_then (parseFloat_String to_binary64 (lng station)) (\<lambda>lng_num.
       if isNaN lat_num \<or> isNaN lng_num \<or>
          num_less lat_num (Fin (- 90) 0) \<or> num_less (Fin 90 0) lat_num \<or>
          num_less lng_num (Fin (- 180) 0) \<or> num_less (Fin 180 0) lng_num
       then Inr [ConsoleError ''Invalid coordinates'']
       else
         and_then (encodeURIComponent (JNum lat_num)) (\<lambda>lat_enc.
         and_then (encodeURIComponent (JNum lng_num)) (\<lambda>lng_enc.
           Inr [WindowOpen (''https://maps.google.com/?q='' @ lat_enc @ '','' @ lng_enc)
                           ''_blank'']))))"

text \<open>
  The file holds a second \<^verbatim>\<open>StationDetails\<close> component, whose handler interpolates the
  two fields as they are.
\<close>

definition handleGetDirections_second :: "station \<Rightarrow> error + effect list" where
  "handleGetDirections_second station =
     and_then (ToString (lat station)) (\<lambda>lat_str.
     and_then (ToString (lng station)) (\<lambda>lng_str.
       Inr [WindowOpen (''https://maps.google.com/?q='' @ lat_str @ '','' @ lng_str)
                       ''_blank'']))"

text \<open>
  The charge button carries \<^verbatim>\<open>disabled={station.status !== 'available'}\<close>; a disabled
  button dispatches no click, so its handler does not run.
\<close>

definition charge_button_disabled :: "station \<Rightarrow> bool" where
  "charge_button_disabled station = (status station \<noteq> JStr ''available'')"

section \<open>The application: views, selection and charging session\<close>

datatype View = View_map | View_details | View_scanner | View_profile

record app_state =
  currentView :: View
  selectedStation :: "station option"
  isCharging :: bool

definition initial_state :: app_state where
  "initial_state = \<lparr>currentView = View_map, selectedStation = None, isCharging = False\<rparr>"

text \<open>The three stations the application starts with.\<close>

definition stations :: "station list" where
  "stations =
     [\<lparr>id_st = JStr ''1'', name = JStr ''Downtown Plaza'', address = JStr ''123 Main St, Miami, FL'',
       lat = JNum (Fin 257617 (- 4)), lng = JNum (Fin (- 801918) (- 4)),
       available = JNum (Fin 3 0), total_st = JNum (Fin 4 0), cost = JNum (Fin 35 (- 2)),
       amenities = JArr [JStr ''Restaurant'', JStr ''WiFi'', JStr ''Restroom''],
       status = JStr ''available''\<rparr>,
      \<lparr>id_st = JStr ''2'', name = JStr ''Airport Terminal'', address = JStr ''2100 NW 42nd Ave, Miami, FL'',
       lat = JNum (Fin 257959 (- 4)), lng = JNum (Fin (- 80287) (- 3)),
       available = JNum (Fin 0 0), total_st = JNum (Fin 6 0), cost = JNum (Fin 42 (- 2)),
       amenities = JArr [JStr ''Food Court'', JStr ''Shopping''],
       status = JStr ''busy''\<rparr>,
      \<lparr>id_st = JStr ''3'', name = JStr ''Beach Resort'', address = JStr ''1701 Collins Ave, Miami Beach, FL'',
       lat = JNum (Fin 257907 (- 4)), lng = JNum (Fin (- 8013) (- 2)),
       available = JNum (Fin 2 0), total_st = JNum (Fin 3 0), cost = JNum (Fin 38 (- 2)),
       amenities = JArr [JStr ''Hotel'', JStr ''Restaurant'', JStr ''Valet''],
       status = JStr ''available''\<rparr>]"

definition handleStationSelect :: "station \<Rightarrow> app_state \<Rightarrow> app_state" where
  "handleStationSelect station s = s\<lparr>selectedStation := Some station, currentView := View_details\<rparr>"

definition handleStartCharging :: "app_state \<Rightarrow> app_state" where
  "handleStartCharging s = s\<lparr>currentView := View_scanner\<rparr>"

text \<open>The scanned text is only logged; it decides nothing.\<close>

definition handleQRScan :: "string \<Rightarrow> app_state \<Rightarrow> app_state" where
  "handleQRScan result s = s\<lparr>isCharging := True, currentView := View_map\<rparr>"

text \<open>
  The events a user or the scanner can raise. \<open>renderView\<close> decides which component is on
  screen and so which callbacks exist: the bottom navigation is always there; station
  selection comes from the map view; the charge button and its back button from the details
  view, which is rendered only with a selected station; the scan result and its back button
  from the scanner; the last back button from the profile. An event whose control is not on
  screen changes nothing. \<open>StationSelect\<close> carries the record a card or a marker popup of the
  map view passes to \<^verbatim>\<open>onStationSelect\<close>; any record may stand there.
\<close>

datatype event =
    NavFind
  | NavScan
  | NavProfile
  | StationSelect station
  | ChargeButtonClick
  | DetailsBack
  | ScanResult string
  | ScannerBack
  | ProfileBack

fun dispatch :: "event \<Rightarrow> app_state \<Rightarrow> app_state" where
  "dispatch NavFind s = s\<lparr>currentView := View_map\<rparr>"
| "dispatch NavScan s = s\<lparr>currentView := View_scanner\<rparr>"
| "dispatch NavProfile s = s\<lparr>currentView := View_profile\<rparr>"
| "dispatch (StationSelect station) s =
     (if currentView s = View_map then handleStationSelect station s else s)"
| "dispatch ChargeButtonClick s =
     (if currentView s = View_details then
        (case selectedStation s of
           None \<Rightarrow> s
         | Some station \<Rightarrow> (if charge_button_disabled station then s else handleStartCharging s))
      else s)"
| "dispatch DetailsBack s =
     (if currentView s = View_details \<and> selectedStation s \<noteq> None
      then s\<lparr>currentView := View_map\<rparr> else s)"
| "dispatch (ScanResult payload) s =
     (if currentView s = View_scanner then handleQRScan payload s else s)"
| "dispatch ScannerBack s =
     (if currentView s = View_scanner then s\<lparr>currentView := View_details\<rparr> else s)"
| "dispatch ProfileBack s =
     (if currentView s = View_profile then s\<lparr>currentView := View_map\<rparr> else s)"

fun run :: "event list \<Rightarrow> app_state \<Rightarrow> app_state" where
  "run [] s = s"
| "run (e # es) s = run es (dispatch e s)"

section \<open>Notions the stated properties use\<close>

text \<open>
  A parsed coordinate lies within \<open>[-b, b]\<close>: it is a finite number in that interval. NaN
  and the infinities lie in no interval.
\<close>

fun within_range :: "jsnum \<Rightarrow> int \<Rightarrow> bool" where
  "within_range (Fin m e) b = (- of_int b \<le> dec_value m e \<and> dec_value m e \<le> of_int b)"
| "within_range x b = False"

text \<open>
  The form in which \<open>literal_value\<close> returns a finite number: zero as \<open>Fin 0 0\<close>, any other
  number with a last digit that is not 0. It denotes the same number.
\<close>

fun canonical :: "jsnum \<Rightarrow> jsnum" where
  "canonical (Fin m e) = make_finite (m < 0) (nat \<bar>m\<bar>) e"
| "canonical x = x"

text \<open>
  Text in which the only \<^verbatim>\<open>&\<close> are those of the four character references the
  serializer writes, and in which no \<^verbatim>\<open><\<close> or \<^verbatim>\<open>>\<close> is left.
\<close>

fun well_escaped :: "string \<Rightarrow> bool" where
  "well_escaped [] = True"
| "well_escaped (c # cs) =
     (if c = CHR ''&''
      then (starts_with cs ''amp;'' \<or> starts_with cs ''nbsp;'' \<or>
            starts_with cs ''lt;'' \<or> starts_with cs ''gt;'') \<and> well_escaped cs
      else c \<noteq> CHR ''<'' \<and> c \<noteq> CHR ''>'' \<and> well_escaped cs)"

definition is_quote :: "char \<Rightarrow> bool" where
  "is_quote c = (c = CHR 0x22 \<or> c = CHR 0x27)"

definition is_special :: "char \<Rightarrow> bool" where
  "is_special c = (c = CHR ''&'' \<or> c = CHR 0xA0 \<or> c = CHR ''<'' \<or> c = CHR ''>'')"

text \<open>
  What an \<^verbatim>\<open>innerHTML\<close> sink displays for markup made of text and those four character
  references: the data of the text node the HTML parser builds, which is the text with the
  references replaced by their characters. As for any input, the parser reads a carriage
  return, alone or followed by a line feed, as one line feed, and it drops the NUL
  character. The result is \<open>None\<close> when the markup holds a \<^verbatim>\<open><\<close> (a tag would open) or
  any other use of \<^verbatim>\<open>&\<close>.
\<close>

function parse_text :: "string \<Rightarrow> string option" where
  "parse_text s =
     (case s of
        [] \<Rightarrow> Some []
      | c # cs \<Rightarrow>
          (if c = CHR ''&'' then
             (if starts_with cs ''amp;'' then map_option ((#) CHR ''&'') (parse_text (drop 4 cs))
              else if starts_with cs ''nbsp;'' then map_option ((#) (CHR 0xA0)) (parse_text (drop 5 cs))
              else if starts_with cs ''lt;'' then map_option ((#) CHR ''<'') (parse_text (drop 3 cs))
              else if starts_with cs ''gt;'' then map_option ((#) CHR ''>'') (parse_text (drop 3 cs))
              else None)
           else if c = CHR ''<'' then None
           else if c = CHR 0x00 then parse_text cs
           else if c = CHR 0x0D then
             map_option ((#) (CHR 0x0A))
               (parse_text (if starts_with cs [CHR 0x0A] then tl cs else cs))
           else map_option ((#) c) (parse_text cs)))"
  by pat_completeness auto
termination
  by (relation "measure length") auto

declare parse_text.simps [simp del]

text \<open>
  Plain text as a sink displays it: line breaks written as a carriage return, alone or
  followed by a line feed, are line feeds, and the NUL character is not there. Text without
  carriage returns and NUL is displayed as it is.
\<close>

function as_displayed :: "string \<Rightarrow> string" where
  "as_displayed s =
     (case s of
        [] \<Rightarrow> []
      | c # cs \<Rightarrow>
          (if c = CHR 0x00 then as_displayed cs
           else if c = CHR 0x0D then
             CHR 0x0A # as_displayed (if starts_with cs [CHR 0x0A] then tl cs else cs)
           else c # as_displayed cs))"
  by pat_completeness auto
termination
  by (relation "measure length") auto

declare as_displayed.simps [simp del]

text \<open>
  The data model of a station, field by field: \<^verbatim>\<open>id\<close>, \<^verbatim>\<open>name\<close>, \<^verbatim>\<open>address\<close> are
  strings; \<^verbatim>\<open>lat\<close>, \<^verbatim>\<open>lng\<close> are numeric; \<^verbatim>\<open>available\<close>, \<^verbatim>\<open>total\<close> are
  non-negative integers; \<^verbatim>\<open>cost\<close> is non-negative numeric; \<^verbatim>\<open>amenities\<close> is a
  sequence of values that can be turned into text (\<^verbatim>\<open>String\<close> returns for each of
  them); \<^verbatim>\<open>status\<close> is one of the three enumerated values.
\<close>

fun is_text :: "jsval \<Rightarrow> bool" where
  "is_text (JStr s) = True"
| "is_text v = False"

fun is_numeric :: "jsval \<Rightarrow> bool" where
  "is_numeric (JNum n) = True"
| "is_numeric v = False"

fun is_nonneg_integer :: "jsval \<Rightarrow> bool" where
  "is_nonneg_integer (JNum (Fin m e)) = (0 \<le> m \<and> (0 \<le> e \<or> m mod 10 ^ nat (- e) = 0))"
| "is_nonneg_integer v = False"

fun is_nonneg_numeric :: "jsval \<Rightarrow> bool" where
  "is_nonneg_numeric (JNum (Fin m e)) = (0 \<le> m)"
| "is_nonneg_numeric (JNum PosInf) = True"
| "is_nonneg_numeric v = False"

fun is_text_sequence :: "jsval \<Rightarrow> bool" where
  "is_text_sequence (JArr xs) = list_all (\<lambda>x. case ToString x of Inl e \<Rightarrow> False | Inr t \<Rightarrow> True) xs"
| "is_text_sequence v = False"

definition conforms_to_data_model :: "station \<Rightarrow> bool" where
  "conforms_to_data_model station =
     (is_text (id_st station) \<and> is_text (name station) \<and> is_text (address station) \<and>
      is_numeric (lat station) \<and> is_numeric (lng station) \<and>
      is_nonneg_integer (available station) \<and> is_nonneg_integer (total_st station) \<and>
      is_nonneg_numeric (cost station) \<and>
      is_text_sequence (amenities station) \<and>
      status station \<in> set [JStr ''available'', JStr ''busy'', JStr ''offline''])"

text \<open>Records used as concrete inputs below, each the first station with one change.\<close>

definition out_of_range_station :: station where
  "out_of_range_station = (hd stations)\<lparr>lat := JNum (Fin 999 0), lng := JNum (Fin (- 8019) (- 2))\<rparr>"

definition out_of_enum_station :: station where
  "out_of_enum_station = (hd stations)\<lparr>status := JStr ''hacked''\<rparr>"

definition negative_ports_station :: station where
  "negative_ports_station = (hd stations)\<lparr>available := JNum (Fin (- 1) 0)\<rparr>"

definition markup_name_station :: station where
  "markup_name_station = (hd stations)\<lparr>name := JStr ''<img src=x onerror=alert(1)>''\<rparr>"

definition unprintable_amenity_station :: station where
  "unprintable_amenity_station =
     (hd stations)\<lparr>amenities := JArr [JObj [(''toString'', JNum (Fin 1 0))]]\<rparr>"

section \<open>Evaluation on concrete input\<close>

text \<open>The defining equations that evaluate the functions above on a closed term.\<close>

lemmas js_eval =
  literal_value_def parse_unsigned_def read_sign_def isWhiteSpace_def isDigit_def digits_value_def
  exponent_part_def make_finite_def strip_zeros.simps positive_toString_def layout_def
  digits10.simps digit_char_def dec_value_def and_then_def encodeURIComponent_def Encode_def
  encode_unit_def uriUnreserved_def percent_def hex_digit_def

section \<open>The sanitizer\<close>

lemma sanitizeText_text: "ToString v = Inr t \<Longrightarrow> sanitizeText v = Inr (escape_string t)"
  by (simp add: sanitizeText_def and_then_def createElement_def set_textContent_def
                innerHTML_def escape_string_def Let_def)

lemma sanitizeText_raises: "sanitizeText v = Inl e \<longleftrightarrow> ToString v = Inl e"
  by (cases "ToString v") (simp_all add: sanitizeText_def and_then_def Let_def)

lemma escape_string_Nil: "escape_string [] = []"
  by (simp add: escape_string_def)

lemma escape_string_Cons: "escape_string (c # cs) = escape_char c @ escape_string cs"
  by (simp add: escape_string_def)

lemma escape_char_no_angle:
  "CHR ''<'' \<notin> set (escape_char c) \<and> CHR ''>'' \<notin> set (escape_char c) \<and>
   CHR 0xA0 \<notin> set (escape_char c)"
  by (simp add: escape_char_def)

lemma escape_string_no_angle:
  "CHR ''<'' \<notin> set (escape_string s) \<and> CHR ''>'' \<notin> set (escape_string s) \<and>
   CHR 0xA0 \<notin> set (escape_string s)"
  using escape_char_no_angle by (induction s) (auto simp: escape_string_Cons escape_string_Nil)

lemma well_escaped_escape: "well_escaped (escape_string s)"
  by (induction s) (auto simp: escape_string_Cons escape_string_Nil escape_char_def)

lemma quotes_kept: "filter is_quote (escape_string s) = filter is_quote s"
  by (induction s) (auto simp: escape_string_Cons escape_string_Nil escape_char_def is_quote_def)

text \<open>What a sink displays for escaped text.\<close>

lemma escape_starts_with_LF:
  "starts_with (escape_string cs) [CHR 0x0A] = starts_with cs [CHR 0x0A]"
  by (cases cs) (auto simp: escape_string_Cons escape_string_Nil escape_char_def)

lemma escape_tl_LF:
  "starts_with cs [CHR 0x0A] \<Longrightarrow> tl (escape_string cs) = escape_string (tl cs)"
  by (cases cs) (auto simp: escape_string_Cons escape_string_Nil escape_char_def)

lemma parse_text_escape_char:
  "c \<noteq> CHR 0x00 \<Longrightarrow> c \<noteq> CHR 0x0D \<Longrightarrow>
   parse_text (escape_char c @ r) = map_option ((#) c) (parse_text r)"
  by (subst parse_text.simps) (simp add: escape_char_def)

lemma parse_text_escape: "parse_text (escape_string s) = Some (as_displayed s)"
proof (induction s rule: as_displayed.induct)
  case (1 s)
  show ?case
  proof (cases s)
    case Nil
    then show ?thesis
      by (simp add: escape_string_Nil parse_text.simps [of "[]"] as_displayed.simps [of "[]"])
  next
    case (Cons c cs)
    consider (nul) "c = CHR 0x00" | (cr) "c = CHR 0x0D" | (other) "c \<noteq> CHR 0x00" "c \<noteq> CHR 0x0D"
      by blast
    then show ?thesis
    proof cases
      case nul
      with 1 Cons have "parse_text (escape_string cs) = Some (as_displayed cs)" by simp
      moreover have "parse_text (escape_string s) = parse_text (escape_string cs)"
        unfolding Cons nul escape_string_Cons
        by (subst parse_text.simps) (simp add: escape_char_def)
      moreover have "as_displayed s = as_displayed cs"
        unfolding Cons nul by (subst as_displayed.simps) simp
      ultimately show ?thesis by simp
    next
      case cr
      let ?r = "if starts_with cs [CHR 0x0A] then tl cs else cs"
      from 1 Cons cr have ih: "parse_text (escape_string ?r) = Some (as_displayed ?r)" by simp
      have "(if starts_with (escape_string cs) [CHR 0x0A] then tl (escape_string cs)
             else escape_string cs) = escape_string ?r"
        by (simp add: escape_starts_with_LF escape_tl_LF)
      then have "parse_text (escape_string s)
                   = map_option ((#) (CHR 0x0A)) (parse_text (escape_string ?r))"
        unfolding Cons cr escape_string_Cons
        by (subst parse_text.simps) (simp add: escape_char_def)
      moreover have "as_displayed s = CHR 0x0A # as_displayed ?r"
        unfolding Cons cr by (subst as_displayed.simps) simp
      ultimately show ?thesis using ih by simp
    next
      case other
      with 1 Cons have "parse_text (escape_string cs) = Some (as_displayed cs)" by simp
      moreover have "as_displayed s = c # as_displayed cs"
        unfolding Cons using other by (subst as_displayed.simps) simp
      ultimately show ?thesis
        unfolding Cons escape_string_Cons using other by (simp add: parse_text_escape_char)
    qed
  qed
qed

lemma as_displayed_plain:
  "CHR 0x00 \<notin> set s \<Longrightarrow> CHR 0x0D \<notin> set s \<Longrightarrow> as_displayed s = s"
  by (induction s) (auto simp: as_displayed.simps [of "[]"] as_displayed.simps [of "_ # _"])

text \<open>Escaping once and escaping twice.\<close>

lemma escape_fixed: "\<not> list_ex is_special s \<Longrightarrow> escape_string s = s"
  by (induction s) (auto simp: escape_string_Cons escape_string_Nil escape_char_def is_special_def)

lemma escape_length: "length s \<le> length (escape_string s)"
  by (induction s) (auto simp: escape_string_Cons escape_string_Nil escape_char_def)

lemma escape_longer: "list_ex is_special s \<Longrightarrow> length s < length (escape_string s)"
proof (induction s)
  case Nil
  then show ?case by simp
next
  case (Cons c cs)
  show ?case
  proof (cases "is_special c")
    case True
    then have "1 < length (escape_char c)"
      by (auto simp: is_special_def escape_char_def)
    with escape_length [of cs] show ?thesis
      by (simp add: escape_string_Cons)
  next
    case False
    with Cons have "length cs < length (escape_string cs)" by simp
    then show ?thesis by (simp add: escape_string_Cons escape_char_def)
  qed
qed

lemma escape_has_amp: "list_ex is_special s \<Longrightarrow> list_ex is_special (escape_string s)"
  by (induction s) (auto simp: escape_string_Cons escape_string_Nil escape_char_def is_special_def)

lemma escape_twice:
  "escape_string (escape_string s) = escape_string s \<longleftrightarrow> \<not> list_ex is_special s"
proof
  assume eq: "escape_string (escape_string s) = escape_string s"
  show "\<not> list_ex is_special s"
  proof
    assume "list_ex is_special s"
    then have "list_ex is_special (escape_string s)" by (rule escape_has_amp)
    then have "length (escape_string s) < length (escape_string (escape_string s))"
      by (rule escape_longer)
    with eq show False by simp
  qed
next
  assume "\<not> list_ex is_special s"
  then show "escape_string (escape_string s) = escape_string s"
    by (simp add: escape_fixed)
qed

text \<open>
  The two are displayed differently as well: every reference ends in a semicolon, and what
  a sink does to carriage returns and NUL leaves the semicolons of a text alone.
\<close>

lemma semicolons_displayed:
  "filter (\<lambda>c. c = CHR '';'') (as_displayed s) = filter (\<lambda>c. c = CHR '';'') s"
proof (induction s rule: as_displayed.induct)
  case (1 s)
  show ?case
  proof (cases s)
    case Nil
    then show ?thesis by (simp add: as_displayed.simps [of "[]"])
  next
    case (Cons c cs)
    have tl_LF: "filter (\<lambda>c. c = CHR '';'') (if starts_with cs [CHR 0x0A] then tl cs else cs)
                   = filter (\<lambda>c. c = CHR '';'') cs"
      by (cases cs) auto
    show ?thesis
      using 1 [OF Cons] tl_LF unfolding Cons
      by (subst as_displayed.simps) (auto split: if_splits)
  qed
qed

lemma semicolons_escape:
  "length (filter (\<lambda>c. c = CHR '';'') s) \<le> length (filter (\<lambda>c. c = CHR '';'') (escape_string s))"
  by (induction s) (auto simp: escape_string_Cons escape_string_Nil escape_char_def)

lemma semicolons_escape_special:
  "list_ex is_special s \<Longrightarrow>
   length (filter (\<lambda>c. c = CHR '';'') s) < length (filter (\<lambda>c. c = CHR '';'') (escape_string s))"
proof (induction s)
  case Nil
  then show ?case by simp
next
  case (Cons c cs)
  show ?case
  proof (cases "is_special c")
    case True
    with semicolons_escape [of cs] show ?thesis
      by (auto simp: escape_string_Cons escape_char_def is_special_def)
  next
    case False
    with Cons have "length (filter (\<lambda>c. c = CHR '';'') cs)
                      < length (filter (\<lambda>c. c = CHR '';'') (escape_string cs))" by simp
    with False show ?thesis
      by (auto simp: escape_string_Cons escape_char_def is_special_def)
  qed
qed

lemma displayed_twice:
  "as_displayed (escape_string s) = as_displayed s \<longleftrightarrow> \<not> list_ex is_special s"
proof
  assume eq: "as_displayed (escape_string s) = as_displayed s"
  show "\<not> list_ex is_special s"
  proof
    assume "list_ex is_special s"
    then have "length (filter (\<lambda>c. c = CHR '';'') s)
                 < length (filter (\<lambda>c. c = CHR '';'') (escape_string s))"
      by (rule semicolons_escape_special)
    moreover have "filter (\<lambda>c. c = CHR '';'') (escape_string s) = filter (\<lambda>c. c = CHR '';'') s"
      using semicolons_displayed [of "escape_string s"] semicolons_displayed [of s] eq by simp
    ultimately show False by simp
  qed
next
  assume "\<not> list_ex is_special s"
  then show "as_displayed (escape_string s) = as_displayed s"
    by (simp add: escape_fixed)
qed

text \<open>
  C3 (as the code has it). For every input that has a text \<open>t\<close> (every string is its own
  text), \<open>sanitizeText\<close> returns \<open>t\<close> with each \<^verbatim>\<open>&\<close> replaced by \<^verbatim>\<open>&amp;\<close>, each
  \<^verbatim>\<open><\<close> by \<^verbatim>\<open>&lt;\<close>, each \<^verbatim>\<open>>\<close> by \<^verbatim>\<open>&gt;\<close>, each no-break space by
  \<^verbatim>\<open>&nbsp;\<close>, and every other character, the double and the single quote included, left
  as it is. So the output contains no \<^verbatim>\<open><\<close>, no \<^verbatim>\<open>>\<close> and no no-break space, every
  \<^verbatim>\<open>&\<close> in it starts one of these four references, its quotes are those of \<open>t\<close>, and a
  sink displays it as the text \<open>t\<close> (read as a sink reads any text: \<open>as_displayed\<close>).
\<close>

theorem sanitizeText_escapes_markup:
  assumes "ToString v = Inr t"
  shows "sanitizeText v = Inr (escape_string t) \<and>
         CHR ''<'' \<notin> set (escape_string t) \<and> CHR ''>'' \<notin> set (escape_string t) \<and>
         CHR 0xA0 \<notin> set (escape_string t) \<and>
         well_escaped (escape_string t) \<and>
         filter is_quote (escape_string t) = filter is_quote t \<and>
         parse_text (escape_string t) = Some (as_displayed t)"
  using assms escape_string_no_angle [of t]
  by (simp add: sanitizeText_text well_escaped_escape quotes_kept parse_text_escape)

text \<open>The theorem at a string with markup, an ampersand, a no-break space and both quotes.\<close>

theorem sanitizeText_escapes_markup_witness:
  "ToString (JStr [CHR ''<'', CHR ''b'', CHR ''>'', CHR ''&'', CHR 0xA0, CHR 0x22, CHR 0x27])
     = Inr [CHR ''<'', CHR ''b'', CHR ''>'', CHR ''&'', CHR 0xA0, CHR 0x22, CHR 0x27] \<and>
   sanitizeText (JStr [CHR ''<'', CHR ''b'', CHR ''>'', CHR ''&'', CHR 0xA0, CHR 0x22, CHR 0x27])
     = Inr (''&lt;b&gt;&amp;&nbsp;'' @ [CHR 0x22, CHR 0x27]) \<and>
   well_escaped (''&lt;b&gt;&amp;&nbsp;'' @ [CHR 0x22, CHR 0x27]) \<and>
   filter is_quote (''&lt;b&gt;&amp;&nbsp;'' @ [CHR 0x22, CHR 0x27]) = [CHR 0x22, CHR 0x27] \<and>
   parse_text (''&lt;b&gt;&amp;&nbsp;'' @ [CHR 0x22, CHR 0x27])
     = Some [CHR ''<'', CHR ''b'', CHR ''>'', CHR ''&'', CHR 0xA0, CHR 0x22, CHR 0x27]"
  using sanitizeText_escapes_markup
          [of "JStr [CHR ''<'', CHR ''b'', CHR ''>'', CHR ''&'', CHR 0xA0, CHR 0x22, CHR 0x27]"
              "[CHR ''<'', CHR ''b'', CHR ''>'', CHR ''&'', CHR 0xA0, CHR 0x22, CHR 0x27]"]
  by (simp add: escape_string_def escape_char_def is_quote_def as_displayed.simps)

text \<open>
  As the specification states it, the property fails on quotes: the output for a double
  quote followed by a single quote is these two characters, unescaped.
\<close>

theorem sanitizeText_quotes_counterexample:
  "sanitizeText (JStr [CHR 0x22, CHR 0x27]) = Inr [CHR 0x22, CHR 0x27]"
  by (simp add: sanitizeText_text escape_string_def escape_char_def)

text \<open>
  C6 (as the code has it). \<open>sanitizeText\<close> first turns its input into text, and it raises
  exactly when that conversion does, which is never the case for a string or a number.
  For an input with text \<open>t\<close>, the output \<open>once\<close> is the escaped \<open>t\<close> and the output
  \<open>twice\<close> of sanitizing \<open>once\<close> again is the escaped \<open>once\<close>; neither contains \<^verbatim>\<open><\<close> or
  \<^verbatim>\<open>>\<close>; a sink displays \<open>once\<close> as the text \<open>t\<close> and \<open>twice\<close> as the text \<open>once\<close> (each
  read as a sink reads any text: \<open>as_displayed\<close>). The two outputs are equal, and they are
  displayed alike, exactly when \<open>t\<close> holds none of \<^verbatim>\<open>&\<close>, \<^verbatim>\<open><\<close>, \<^verbatim>\<open>>\<close> and the
  no-break space.
\<close>

theorem sanitizeText_twice:
  "(sanitizeText v = Inl e \<longleftrightarrow> ToString v = Inl e) \<and>
   sanitizeText (JStr s) = Inr (escape_string s) \<and>
   sanitizeText (JNum n) = Inr (escape_string (Number_toString n)) \<and>
   (ToString v = Inr t \<longrightarrow>
      (\<exists>once twice.
         sanitizeText v = Inr once \<and> sanitizeText (JStr once) = Inr twice \<and>
         once = escape_string t \<and> twice = escape_string once \<and>
         CHR ''<'' \<notin> set once \<and> CHR ''>'' \<notin> set once \<and>
         CHR ''<'' \<notin> set twice \<and> CHR ''>'' \<notin> set twice \<and>
         parse_text once = Some (as_displayed t) \<and>
         parse_text twice = Some (as_displayed once) \<and>
         (twice = once \<longleftrightarrow> \<not> list_ex is_special t) \<and>
         (parse_text twice = parse_text once \<longleftrightarrow> \<not> list_ex is_special t)))"
  using escape_string_no_angle [of t] escape_string_no_angle [of "escape_string t"]
  by (simp add: sanitizeText_text sanitizeText_raises parse_text_escape escape_twice
                displayed_twice)

text \<open>The theorem at the image tag of the specification's scenario, and at a number.\<close>

theorem sanitizeText_twice_witness:
  "ToString (name markup_name_station) = Inr ''<img src=x onerror=alert(1)>'' \<and>
   sanitizeText (name markup_name_station) = Inr ''&lt;img src=x onerror=alert(1)&gt;'' \<and>
   sanitizeText (JStr ''&lt;img src=x onerror=alert(1)&gt;'')
     = Inr ''&amp;lt;img src=x onerror=alert(1)&amp;gt;'' \<and>
   parse_text ''&lt;img src=x onerror=alert(1)&gt;'' = Some ''<img src=x onerror=alert(1)>'' \<and>
   parse_text ''&amp;lt;img src=x onerror=alert(1)&amp;gt;''
     = Some ''&lt;img src=x onerror=alert(1)&gt;'' \<and>
   sanitizeText (JNum (Fin 35 (- 2))) = Inr ''0.35''"
  using sanitizeText_twice [of "name markup_name_station" TypeError "[]" "Fin 35 (- 2)"
                               "''<img src=x onerror=alert(1)>''"]
  by (simp add: markup_name_station_def escape_string_def escape_char_def js_eval
                as_displayed.simps)

text \<open>
  As the specification states it, the property fails twice. Sanitizing twice is not
  sanitizing once: for \<^verbatim>\<open><\<close> the first pass gives \<^verbatim>\<open>&lt;\<close>, displayed as \<^verbatim>\<open><\<close>, and
  the second pass gives \<^verbatim>\<open>&amp;lt;\<close>, displayed as \<^verbatim>\<open>&lt;\<close>. And \<open>sanitizeText\<close>
  raises on an input without a text: the object \<^verbatim>\<open>{"toString": 1}\<close>, which reaches it as
  an element of \<^verbatim>\<open>amenities\<close> of a record that \<open>validateStation\<close> accepts.
\<close>

theorem sanitizeText_idempotence_counterexample:
  "sanitizeText (JStr ''<'') = Inr ''&lt;'' \<and>
   sanitizeText (JStr ''&lt;'') = Inr ''&amp;lt;'' \<and>
   parse_text ''&lt;'' = Some ''<'' \<and>
   parse_text ''&amp;lt;'' = Some ''&lt;'' \<and>
   sanitizeText (JObj [(''toString'', JNum (Fin 1 0))]) = Inl TypeError \<and>
   validateStation unprintable_amenity_station \<and>
   amenity_tags unprintable_amenity_station = Inl TypeError"
  by (simp add: sanitizeText_def and_then_def createElement_def set_textContent_def
                innerHTML_def escape_string_def escape_char_def parse_text.simps
                unprintable_amenity_station_def stations_def validateStation_def
                array_includes_def amenity_tags_def)
section \<open>Validation of station records\<close>

lemma typeof_string: "typeof v = ''string'' \<longleftrightarrow> (\<exists>s. v = JStr s)"
  by (cases v) simp_all

lemma typeof_number: "typeof v = ''number'' \<longleftrightarrow> (\<exists>n. v = JNum n)"
  by (cases v) simp_all

lemma isArray_iff: "Array_isArray v \<longleftrightarrow> (\<exists>xs. v = JArr xs)"
  by (cases v) simp_all

lemma is_text_typeof: "is_text v \<Longrightarrow> typeof v = ''string''"
  by (cases v) simp_all

lemma is_numeric_typeof: "is_numeric v \<Longrightarrow> typeof v = ''number''"
  by (cases v) simp_all

lemma is_nonneg_integer_typeof: "is_nonneg_integer v \<Longrightarrow> typeof v = ''number''"
  by (cases v) simp_all

lemma is_nonneg_numeric_typeof: "is_nonneg_numeric v \<Longrightarrow> typeof v = ''number''"
  by (cases v) simp_all

lemma is_text_sequence_isArray: "is_text_sequence v \<Longrightarrow> Array_isArray v"
  by (cases v) simp_all

text \<open>
  One direction of the stated equivalence holds: a record that matches the data model is
  accepted.
\<close>

lemma conforms_validates: "conforms_to_data_model station \<Longrightarrow> validateStation station"
  unfolding conforms_to_data_model_def validateStation_def array_includes_def
  by (simp add: is_text_typeof is_numeric_typeof is_nonneg_integer_typeof
                is_nonneg_numeric_typeof is_text_sequence_isArray)

text \<open>
  C7 (as the code has it). \<open>validateStation\<close> accepts a record exactly when \<^verbatim>\<open>id\<close>,
  \<^verbatim>\<open>name\<close> and \<^verbatim>\<open>address\<close> are strings, \<^verbatim>\<open>lat\<close>, \<^verbatim>\<open>lng\<close>, \<^verbatim>\<open>available\<close>,
  \<^verbatim>\<open>total\<close> and \<^verbatim>\<open>cost\<close> are numbers of any value (negative, fractional, NaN and
  infinite ones included), \<^verbatim>\<open>amenities\<close> is an array, whatever its elements, and
  \<^verbatim>\<open>status\<close> is one of the strings \<^verbatim>\<open>available\<close>, \<^verbatim>\<open>busy\<close>, \<^verbatim>\<open>offline\<close>. It is a
  function of the record alone and returns nothing but its verdict.
\<close>

theorem validateStation_shape:
  "validateStation station \<longleftrightarrow>
     (\<exists>i n a la lo av to c am.
        id_st station = JStr i \<and> name station = JStr n \<and> address station = JStr a \<and>
        lat station = JNum la \<and> lng station = JNum lo \<and>
        available station = JNum av \<and> total_st station = JNum to \<and> cost station = JNum c \<and>
        amenities station = JArr am \<and>
        (status station = JStr ''available'' \<or> status station = JStr ''busy'' \<or>
         status station = JStr ''offline''))"
  unfolding validateStation_def typeof_string typeof_number isArray_iff array_includes_def
  by auto

text \<open>
  The theorem at the first station of the application, which is accepted, and at the same
  record with a status outside the enumeration, which is not.
\<close>

theorem validateStation_shape_witness:
  "validateStation (hd stations) \<and> \<not> validateStation out_of_enum_station"
  using validateStation_shape [of "hd stations"] validateStation_shape [of out_of_enum_station]
  by (simp add: stations_def out_of_enum_station_def)

text \<open>
  As the specification states it, the property fails on the numeric fields: a record with
  \<^verbatim>\<open>available: -1\<close> is accepted although \<^verbatim>\<open>available\<close> is no non-negative integer.
\<close>

theorem validateStation_negative_ports_counterexample:
  "validateStation negative_ports_station \<and> \<not> conforms_to_data_model negative_ports_station"
  by (simp add: negative_ports_station_def stations_def validateStation_def array_includes_def
                conforms_to_data_model_def)

section \<open>Which records the map view shows\<close>

lemma filter_raising_total:
  "\<forall>x \<in> set xs. \<exists>b. p x = Inr b \<Longrightarrow> \<exists>ys. filter_raising p xs = Inr ys \<and> set ys \<subseteq> set xs"
proof (induction xs)
  case Nil
  then show ?case by simp
next
  case (Cons x xs)
  then obtain b ys where "p x = Inr b" "filter_raising p xs = Inr ys" "set ys \<subseteq> set xs"
    by auto
  then show ?case by auto
qed

lemma matches_query_validated: "validateStation station \<Longrightarrow> \<exists>b. matches_query q station = Inr b"
  unfolding validateStation_def matches_query_def
  by (cases "name station"; cases "address station") auto

text \<open>
  In the version that validates, the search never raises and both the filtered list and
  the markers range over accepted records of the input only.
\<close>

lemma filteredStations_validated:
  "\<exists>ys. filteredStations sts q = Inr ys \<and>
        (\<forall>station \<in> set ys. validateStation station \<and> station \<in> set sts)"
proof -
  let ?q = "toLowerCase (escape_string q)"
  have "\<forall>x \<in> set (filter validateStation sts). \<exists>b. matches_query ?q x = Inr b"
    by (simp add: matches_query_validated)
  from filter_raising_total [OF this]
  obtain ys where "filter_raising (matches_query ?q) (filter validateStation sts) = Inr ys"
    "set ys \<subseteq> set (filter validateStation sts)" by blast
  then show ?thesis
    by (auto simp: filteredStations_def and_then_def sanitizeText_text Let_def)
qed

lemma stationMarkers_validated:
  "m \<in> set (stationMarkers sts) \<Longrightarrow> validateStation (marker_station m) \<and> marker_station m \<in> set sts"
  by (auto simp: stationMarkers_def)

text \<open>
  C1. The property holds of the version above and fails in \<^verbatim>\<open>src/components/MapView.tsx\<close>,
  which has no validation step: a record whose status is outside the enumeration is rejected
  by \<open>validateStation\<close>, yet that file's filtered list (with the empty query) and its
  markers both contain it.
\<close>

theorem invalid_record_shown_by_MapView_tsx:
  "\<not> validateStation out_of_enum_station \<and>
   filteredStations_tsx [out_of_enum_station] [] = Inr [out_of_enum_station] \<and>
   map marker_station (stationMarkers_tsx [out_of_enum_station]) = [out_of_enum_station] \<and>
   filteredStations [out_of_enum_station] [] = Inr [] \<and>
   stationMarkers [out_of_enum_station] = []"
  by (simp add: out_of_enum_station_def stations_def validateStation_def array_includes_def
        filteredStations_tsx_def stationMarkers_tsx_def matches_query_def toLowerCase_def
        filteredStations_def stationMarkers_def and_then_def sanitizeText_text)

section \<open>The text of a number reads back as the number\<close>


lemma digit_cases: "d < 10 \<Longrightarrow> d = 0 \<or> d = 1 \<or> d = 2 \<or> d = 3 \<or> d = 4 \<or> d = 5 \<or> d = 6 \<or> d = 7 \<or> d = 8 \<or> d = (9::nat)"
  by arith

lemma isDigit_digit_char: "d < 10 \<Longrightarrow> isDigit (digit_char d)"
  by (drule digit_cases) (elim disjE; simp add: isDigit_def digit_char_def)

lemma digit_char_value: "d < 10 \<Longrightarrow> of_char (digit_char d) - 48 = d"
  by (drule digit_cases) (elim disjE; simp add: digit_char_def)

lemma digits10_digits: "list_all isDigit (digits10 n)"
proof (induction n rule: digits10.induct)
  case (1 n)
  show ?case
  proof (cases "n < 10")
    case True
    then show ?thesis by (subst digits10.simps) (simp add: isDigit_digit_char)
  next
    case False
    with 1 have "list_all isDigit (digits10 (n div 10))" by simp
    with False show ?thesis by (subst digits10.simps) (simp add: isDigit_digit_char)
  qed
qed

lemma digits10_nonempty: "digits10 n \<noteq> []"
  by (subst digits10.simps) simp

lemma digits_value_snoc: "digits_value (xs @ [c]) = 10 * digits_value xs + (of_char c - 48)"
  by (simp add: digits_value_def)

lemma digits_value_Nil: "digits_value [] = 0"
  by (simp add: digits_value_def)

lemma digits_value_append:
  "digits_value (xs @ ys) = digits_value xs * 10 ^ length ys + digits_value ys"
proof (induction ys rule: rev_induct)
  case Nil
  show ?case by (simp add: digits_value_Nil)
next
  case (snoc y ys)
  have "digits_value (xs @ ys @ [y]) = 10 * digits_value (xs @ ys) + (of_char y - 48)"
    using digits_value_snoc [of "xs @ ys" y] by simp
  with snoc show ?case by (simp add: digits_value_snoc algebra_simps)
qed

lemma digits_value_digits10: "digits_value (digits10 n) = n"
proof (induction n rule: digits10.induct)
  case (1 n)
  show ?case
  proof (cases "n < 10")
    case True
    then show ?thesis
      using digits_value_snoc [of "[]" "digit_char n"]
      by (subst digits10.simps) (simp add: digit_char_value digits_value_Nil)
  next
    case False
    with 1 have "digits_value (digits10 (n div 10)) = n div 10" by simp
    with False show ?thesis
      by (subst digits10.simps) (simp add: digits_value_snoc digit_char_value)
  qed
qed

lemma digits_value_zeros: "digits_value (replicate j CHR ''0'') = 0"
proof (induction j)
  case 0
  show ?case by (simp add: digits_value_Nil)
next
  case (Suc j)
  have "digits_value [CHR ''0''] = 0" by (simp add: digits_value_def)
  with Suc show ?case
    using digits_value_append [of "[CHR ''0'']" "replicate j CHR ''0''"] by simp
qed


lemma isDigit_zero: "isDigit CHR ''0''"
  by (simp add: isDigit_def)

lemma takeWhile_digits:
  "list_all isDigit ds \<Longrightarrow> r = [] \<or> \<not> isDigit (hd r) \<Longrightarrow> takeWhile isDigit (ds @ r) = ds"
  by (cases r) (auto simp: list_all_iff)

lemma dropWhile_digits:
  "list_all isDigit ds \<Longrightarrow> r = [] \<or> \<not> isDigit (hd r) \<Longrightarrow> dropWhile isDigit (ds @ r) = r"
  by (cases r) (auto simp: list_all_iff)

lemma strip_zeros_done: "s = 0 \<or> s mod 10 \<noteq> 0 \<Longrightarrow> strip_zeros s e = (s, e)"
  by (subst strip_zeros.simps) auto

lemma strip_zeros_power: "0 < s \<Longrightarrow> strip_zeros (s * 10 ^ j) e = strip_zeros s (e + int j)"
proof (induction j arbitrary: e)
  case 0
  show ?case by simp
next
  case (Suc j)
  have "strip_zeros (s * 10 ^ Suc j) e = strip_zeros (s * 10 ^ j) (e + 1)"
    using Suc.prems by (subst strip_zeros.simps) simp
  also have "\<dots> = strip_zeros s (e + 1 + int j)" using Suc by simp
  finally show ?case by (simp add: add.commute add.left_commute)
qed

lemma strip_zeros_result:
  "0 < s \<Longrightarrow> strip_zeros s e = (s', e') \<Longrightarrow> 0 < s' \<and> s' mod 10 \<noteq> 0"
proof (induction s e rule: strip_zeros.induct)
  case (1 s e)
  show ?case
  proof (cases "s mod 10 = 0")
    case True
    with 1 have "0 < s div 10" by auto
    moreover from True 1 have "strip_zeros (s div 10) (e + 1) = (s', e')"
      by (subst (asm) (2) strip_zeros.simps) auto
    ultimately show ?thesis using 1 True by auto
  next
    case False
    with 1 show ?thesis by (simp add: strip_zeros_done)
  qed
qed


lemma not_digit_point: "\<not> isDigit CHR ''.''" and not_digit_e: "\<not> isDigit CHR ''e''"
  by (simp_all add: isDigit_def)

lemma exponent_part_Nil: "exponent_part [] = 0"
  by (simp add: exponent_part_def)

lemma exponent_part_signed:
  assumes "list_all isDigit xs" "xs \<noteq> []" "c = CHR ''-'' \<or> c = CHR ''+''"
  shows "exponent_part (CHR ''e'' # c # xs)
           = (if c = CHR ''-'' then - int (digits_value xs) else int (digits_value xs))"
proof -
  have tw: "takeWhile isDigit xs = xs"
    using takeWhile_digits [OF assms(1), of "[]"] by simp
  from assms(3) show ?thesis
    by (auto simp: exponent_part_def read_sign_def tw assms(2))
qed

lemma parse_unsigned_point:
  assumes "list_all isDigit ip" "ip \<noteq> []" "list_all isDigit fp" "E = [] \<or> hd E = CHR ''e''"
  shows "parse_unsigned neg (ip @ ''.'' @ fp @ E)
           = make_finite neg (digits_value (ip @ fp)) (exponent_part E - int (length fp))"
proof -
  have E: "E = [] \<or> \<not> isDigit (hd E)"
    using assms(4) not_digit_e by auto
  have tw: "takeWhile isDigit (ip @ ''.'' @ fp @ E) = ip"
    using takeWhile_digits [OF assms(1), of "''.'' @ fp @ E"] not_digit_point by simp
  have dw: "dropWhile isDigit (ip @ ''.'' @ fp @ E) = ''.'' @ fp @ E"
    using dropWhile_digits [OF assms(1), of "''.'' @ fp @ E"] not_digit_point by simp
  have tw2: "takeWhile isDigit (fp @ E) = fp"
    using takeWhile_digits [OF assms(3) E] .
  have dw2: "dropWhile isDigit (fp @ E) = E"
    using dropWhile_digits [OF assms(3) E] .
  show ?thesis
    unfolding parse_unsigned_def tw dw
    by (simp add: Let_def tw2 dw2 assms(2))
qed

lemma parse_unsigned_nopoint:
  assumes "list_all isDigit ip" "ip \<noteq> []" "E = [] \<or> hd E = CHR ''e''"
  shows "parse_unsigned neg (ip @ E) = make_finite neg (digits_value ip) (exponent_part E)"
proof -
  have E: "E = [] \<or> \<not> isDigit (hd E)"
    using assms(3) not_digit_e by auto
  have tw: "takeWhile isDigit (ip @ E) = ip"
    using takeWhile_digits [OF assms(1) E] .
  have dw: "dropWhile isDigit (ip @ E) = E"
    using dropWhile_digits [OF assms(1) E] .
  from assms(3) have np: "(E \<noteq> [] \<and> hd E = CHR ''.'') = False" by auto
  show ?thesis
    unfolding parse_unsigned_def tw dw
    by (simp only: Let_def np if_False append_Nil2 list.size) (simp add: assms(2))
qed

lemma make_finite_power:
  assumes "0 < s" "s mod 10 \<noteq> 0"
  shows "make_finite neg (s * 10 ^ j) e = Fin (if neg then - int s else int s) (e + int j)"
proof -
  have "strip_zeros (s * 10 ^ j) e = (s, e + int j)"
    using strip_zeros_power [OF assms(1), of j e] strip_zeros_done [of s "e + int j"] assms(2)
    by simp
  with assms(1) show ?thesis by (simp add: make_finite_def)
qed

lemma make_finite_stripped:
  assumes "0 < s" "s mod 10 \<noteq> 0"
  shows "make_finite neg s e = Fin (if neg then - int s else int s) e"
  using make_finite_power [OF assms, of neg 0 e] by simp


lemma list_all_take: "list_all P xs \<Longrightarrow> list_all P (take i xs)"
  by (auto simp: list_all_iff dest: in_set_takeD)

lemma list_all_drop: "list_all P xs \<Longrightarrow> list_all P (drop i xs)"
  by (auto simp: list_all_iff dest: in_set_dropD)

lemma list_all_zeros: "list_all isDigit (replicate j CHR ''0'')"
  by (simp add: list_all_iff isDigit_zero)

lemma exponent_of_layout:
  assumes "c = (if x < 0 then ''-'' else ''+'')"
  shows "exponent_part (''e'' @ c @ digits10 (nat \<bar>x\<bar>)) = x"
proof (cases "x < 0")
  case True
  with assms have "''e'' @ c @ digits10 (nat \<bar>x\<bar>) = CHR ''e'' # CHR ''-'' # digits10 (nat \<bar>x\<bar>)"
    by simp
  with True show ?thesis
    using exponent_part_signed [OF digits10_digits digits10_nonempty, of "CHR ''-''" "nat \<bar>x\<bar>"]
    by (simp add: digits_value_digits10)
next
  case False
  with assms have "''e'' @ c @ digits10 (nat \<bar>x\<bar>) = CHR ''e'' # CHR ''+'' # digits10 (nat \<bar>x\<bar>)"
    by simp
  with False show ?thesis
    using exponent_part_signed [OF digits10_digits digits10_nonempty, of "CHR ''+''" "nat \<bar>x\<bar>"]
    by (simp add: digits_value_digits10)
qed

lemma parse_layout:
  assumes s: "0 < s" "s mod 10 \<noteq> 0"
  shows "parse_unsigned neg (layout s e) = Fin (if neg then - int s else int s) e"
proof -
  let ?ds = "digits10 s"
  let ?k = "int (length ?ds)"
  let ?n = "e + ?k"
  let ?r = "Fin (if neg then - int s else int s) e"
  have dig: "list_all isDigit ?ds" by (rule digits10_digits)
  have ne: "?ds \<noteq> []" by (rule digits10_nonempty)
  have val: "digits_value ?ds = s" by (rule digits_value_digits10)
  from ne have k1: "1 \<le> ?k" by (cases ?ds) simp_all
  consider (int) "?k \<le> ?n \<and> ?n \<le> 21"
    | (point) "\<not> (?k \<le> ?n \<and> ?n \<le> 21)" "0 < ?n \<and> ?n \<le> 21"
    | (small) "\<not> (?k \<le> ?n \<and> ?n \<le> 21)" "\<not> (0 < ?n \<and> ?n \<le> 21)" "- 6 < ?n \<and> ?n \<le> 0"
    | (expo) "\<not> (?k \<le> ?n \<and> ?n \<le> 21)" "\<not> (0 < ?n \<and> ?n \<le> 21)" "\<not> (- 6 < ?n \<and> ?n \<le> 0)"
    by blast
  then show ?thesis
  proof cases
    case int
    let ?j = "nat (?n - ?k)"
    have L: "layout s e = ?ds @ replicate ?j CHR ''0''"
      using int by (simp add: layout_def Let_def)
    have all: "list_all isDigit (?ds @ replicate ?j CHR ''0'')"
      using dig list_all_zeros [of ?j] by simp
    have nonempty: "?ds @ replicate ?j CHR ''0'' \<noteq> []"
      using ne by simp
    have "parse_unsigned neg ((?ds @ replicate ?j CHR ''0'') @ [])
            = make_finite neg (digits_value (?ds @ replicate ?j CHR ''0'')) (exponent_part [])"
      by (rule parse_unsigned_nopoint [OF all nonempty]) simp
    also have "digits_value (?ds @ replicate ?j CHR ''0'') = s * 10 ^ ?j"
      by (simp add: digits_value_append val digits_value_zeros)
    also have "make_finite neg (s * 10 ^ ?j) (exponent_part []) = Fin (if neg then - int s else int s) (int ?j)"
      using make_finite_power [OF s, of neg ?j 0] by (simp add: exponent_part_Nil)
    also have "int ?j = e" using int by simp
    finally show ?thesis by (simp add: L)
  next
    case point
    then have lt: "?n < ?k" by auto
    let ?i = "nat ?n"
    have L: "layout s e = take ?i ?ds @ ''.'' @ drop ?i ?ds"
      using point by (simp add: layout_def Let_def)
    have ip: "list_all isDigit (take ?i ?ds)" using dig by (rule list_all_take)
    have fp: "list_all isDigit (drop ?i ?ds)" using dig by (rule list_all_drop)
    have ipne: "take ?i ?ds \<noteq> []" using point ne by simp
    have len: "int (length (drop ?i ?ds)) = ?k - ?n" using point lt by simp
    have "parse_unsigned neg (take ?i ?ds @ ''.'' @ drop ?i ?ds @ [])
            = make_finite neg (digits_value (take ?i ?ds @ drop ?i ?ds))
                (exponent_part [] - int (length (drop ?i ?ds)))"
      by (rule parse_unsigned_point [OF ip ipne fp]) simp
    also have "\<dots> = make_finite neg s (- (?k - ?n))"
      by (simp only: append_take_drop_id val exponent_part_Nil len) simp
    also have "\<dots> = ?r"
      using make_finite_stripped [OF s, of neg "- (?k - ?n)"] by simp
    finally show ?thesis by (simp add: L)
  next
    case small
    let ?j = "nat (- ?n)"
    have L: "layout s e = [CHR ''0''] @ ''.'' @ (replicate ?j CHR ''0'' @ ?ds) @ []"
      using small by (simp add: layout_def Let_def)
    have ip: "list_all isDigit [CHR ''0'']" by (simp add: isDigit_zero)
    have fp: "list_all isDigit (replicate ?j CHR ''0'' @ ?ds)"
      using dig list_all_zeros [of ?j] by simp
    have v: "digits_value ([CHR ''0''] @ replicate ?j CHR ''0'' @ ?ds) = s"
      using digits_value_append [of "replicate (Suc ?j) CHR ''0''" ?ds] digits_value_zeros [of "Suc ?j"]
      by (simp add: val)
    have len: "int (length (replicate ?j CHR ''0'' @ ?ds)) = ?k - ?n" using small by simp
    have "parse_unsigned neg ([CHR ''0''] @ ''.'' @ (replicate ?j CHR ''0'' @ ?ds) @ [])
            = make_finite neg (digits_value ([CHR ''0''] @ replicate ?j CHR ''0'' @ ?ds))
                (exponent_part [] - int (length (replicate ?j CHR ''0'' @ ?ds)))"
      by (rule parse_unsigned_point [OF ip _ fp]) simp_all
    also have "\<dots> = make_finite neg s (- (?k - ?n))"
      by (simp only: v exponent_part_Nil len) simp
    also have "\<dots> = ?r"
      using make_finite_stripped [OF s, of neg "- (?k - ?n)"] by simp
    finally show ?thesis by (simp only: L)
  next
    case expo
    let ?x = "?n - 1"
    let ?c = "if ?x < 0 then ''-'' else ''+''"
    let ?xs = "digits10 (nat \<bar>?x\<bar>)"
    let ?E = "''e'' @ ?c @ ?xs"
    have c1: "(?k \<le> ?n \<and> ?n \<le> 21) = False"
      by (rule iffD2 [OF eq_False]) (rule expo(1))
    have c2: "(0 < ?n \<and> ?n \<le> 21) = False"
      by (rule iffD2 [OF eq_False]) (rule expo(2))
    have c3: "(- 6 < ?n \<and> ?n \<le> 0) = False"
      by (rule iffD2 [OF eq_False]) (rule expo(3))
    have ex: "exponent_part ?E = ?x" by (rule exponent_of_layout) simp
    have hdE: "?E = [] \<or> hd ?E = CHR ''e''" by simp
    show ?thesis
    proof (cases "?k = 1")
      case True
      have c4: "(?k = 1) = True"
        by (rule iffD2 [OF eq_True]) (rule True)
      have L: "layout s e = ?ds @ ?E"
        by (simp only: layout_def Let_def c1 c2 c3 c4 if_False if_True)
      have "parse_unsigned neg (?ds @ ?E) = make_finite neg (digits_value ?ds) (exponent_part ?E)"
        by (rule parse_unsigned_nopoint [OF dig ne hdE])
      also have "\<dots> = make_finite neg s ?x" by (simp only: val ex)
      also have "\<dots> = ?r"
        using make_finite_stripped [OF s, of neg ?x] True by simp
      finally show ?thesis by (simp only: L)
    next
      case False
      have c4: "(?k = 1) = False"
        by (rule iffD2 [OF eq_False]) (rule False)
      have L: "layout s e = take 1 ?ds @ ''.'' @ drop 1 ?ds @ ?E"
        by (simp only: layout_def Let_def c1 c2 c3 c4 if_False)
      have ip: "list_all isDigit (take 1 ?ds)" using dig by (rule list_all_take)
      have fp: "list_all isDigit (drop 1 ?ds)" using dig by (rule list_all_drop)
      have ipne: "take 1 ?ds \<noteq> []" using ne by simp
      have len: "int (length (drop 1 ?ds)) = ?k - 1" using k1 by simp
      have "parse_unsigned neg (take 1 ?ds @ ''.'' @ drop 1 ?ds @ ?E)
              = make_finite neg (digits_value (take 1 ?ds @ drop 1 ?ds))
                  (exponent_part ?E - int (length (drop 1 ?ds)))"
        by (rule parse_unsigned_point [OF ip ipne fp hdE])
      also have "\<dots> = make_finite neg s (?x - (?k - 1))"
        by (simp only: append_take_drop_id val ex len)
      also have "\<dots> = ?r"
        using make_finite_stripped [OF s, of neg "?x - (?k - 1)"] by simp
      finally show ?thesis by (simp only: L)
    qed
  qed
qed

lemma isDigit_cases:
  "isDigit c \<Longrightarrow> c = CHR ''0'' \<or> c = CHR ''1'' \<or> c = CHR ''2'' \<or> c = CHR ''3'' \<or> c = CHR ''4'' \<or>
     c = CHR ''5'' \<or> c = CHR ''6'' \<or> c = CHR ''7'' \<or> c = CHR ''8'' \<or> c = CHR ''9''"
  by (simp add: isDigit_def)

lemma digit_not_special:
  assumes "isDigit c"
  shows "\<not> isWhiteSpace c \<and> c \<noteq> CHR ''-'' \<and> c \<noteq> CHR ''+'' \<and> c \<noteq> CHR ''I''"
  using isDigit_cases [OF assms] by (elim disjE) (simp_all add: isWhiteSpace_def)

lemma literal_value_unsigned:
  assumes "s \<noteq> []" "isDigit (hd s)"
  shows "literal_value s = parse_unsigned False s"
proof -
  from assms obtain c cs where s: "s = c # cs" and c: "isDigit c"
    by (cases s) auto
  from digit_not_special [OF c] show ?thesis
    by (simp add: s literal_value_def read_sign_def)
qed

lemma literal_value_minus:
  assumes "s \<noteq> []" "isDigit (hd s)"
  shows "literal_value (CHR ''-'' # s) = parse_unsigned True s"
proof -
  from assms obtain c cs where s: "s = c # cs" and c: "isDigit c"
    by (cases s) auto
  from digit_not_special [OF c] show ?thesis
    by (simp add: s literal_value_def read_sign_def isWhiteSpace_def)
qed

lemma hd_digits10: "isDigit (hd (digits10 n))"
  using digits10_digits [of n] digits10_nonempty [of n]
  by (cases "digits10 n") simp_all

lemma layout_starts_with_digit: "layout s e \<noteq> [] \<and> isDigit (hd (layout s e))"
proof -
  let ?ds = "digits10 s"
  have ne: "?ds \<noteq> []" by (rule digits10_nonempty)
  have hd: "isDigit (hd ?ds)" by (rule hd_digits10)
  have t: "\<And>i. 0 < i \<Longrightarrow> take i ?ds \<noteq> [] \<and> hd (take i ?ds) = hd ?ds"
    using ne by (cases ?ds) (auto simp: take_Cons')
  have t1: "take 1 ?ds \<noteq> [] \<and> hd (take 1 ?ds) = hd ?ds" by (rule t) simp
  show ?thesis
    unfolding layout_def Let_def
    using ne hd t1 by (auto simp: isDigit_zero hd_append t)
qed



lemma literal_value_positive_toString:
  assumes "0 < s"
  shows "literal_value (positive_toString s e) = make_finite False s e"
    and "literal_value (CHR ''-'' # positive_toString s e) = make_finite True s e"
proof -
  obtain s' e' where st: "strip_zeros s e = (s', e')" by (cases "strip_zeros s e")
  from strip_zeros_result [OF assms st] have sp: "0 < s'" "s' mod 10 \<noteq> 0" by simp_all
  have shape: "positive_toString s e = layout s' e'"
    by (simp add: positive_toString_def st)
  note dig = layout_starts_with_digit [of s' e']
  have mk: "\<And>neg. make_finite neg s e = Fin (if neg then - int s' else int s') e'"
    using assms by (simp add: make_finite_def st)
  have "literal_value (layout s' e') = parse_unsigned False (layout s' e')"
    using literal_value_unsigned dig by blast
  with parse_layout [OF sp, of False e'] show "literal_value (positive_toString s e) = make_finite False s e"
    by (simp only: shape mk if_False)
  have "literal_value (CHR ''-'' # layout s' e') = parse_unsigned True (layout s' e')"
    using literal_value_minus dig by blast
  with parse_layout [OF sp, of True e'] show "literal_value (CHR ''-'' # positive_toString s e) = make_finite True s e"
    by (simp only: shape mk if_True)
qed

lemma literal_value_Number_toString: "literal_value (Number_toString x) = canonical x"
proof (cases x)
  case NaN
  then show ?thesis by (simp add: literal_value_def parse_unsigned_def read_sign_def isWhiteSpace_def isDigit_def)
next
  case PosInf
  then show ?thesis by (simp add: literal_value_def read_sign_def isWhiteSpace_def)
next
  case NegInf
  then show ?thesis by (simp add: literal_value_def read_sign_def isWhiteSpace_def)
next
  case (Fin m e)
  consider (zero) "m = 0" | (neg) "m < 0" | (pos) "0 < m" by linarith
  then show ?thesis
  proof cases
    case zero
    have "literal_value ''0'' = Fin 0 0"
      by (simp add: literal_value_def parse_unsigned_def read_sign_def isWhiteSpace_def isDigit_def
                    digits_value_def exponent_part_def make_finite_def)
    with Fin zero show ?thesis by (simp add: make_finite_def)
  next
    case neg
    then have a: "nat \<bar>m\<bar> = nat (- m)" and p: "0 < nat (- m)" by simp_all
    have "Number_toString x = CHR ''-'' # positive_toString (nat (- m)) e"
      using Fin neg by simp
    moreover have "canonical x = make_finite True (nat (- m)) e"
      using Fin neg by (simp add: a)
    ultimately show ?thesis
      using literal_value_positive_toString(2) [OF p, of e] by (simp only:)
  next
    case pos
    then have a: "nat \<bar>m\<bar> = nat m" and p: "0 < nat m" by simp_all
    have "Number_toString x = positive_toString (nat m) e"
      using Fin pos by simp
    moreover have "canonical x = make_finite False (nat m) e"
      using Fin pos by (simp add: a)
    ultimately show ?thesis
      using literal_value_positive_toString(1) [OF p, of e] by (simp only:)
  qed
qed

lemma dec_value_powi: "dec_value m e = of_int m * 10 powi e"
proof (cases "0 \<le> e")
  case True
  then show ?thesis by (simp only: dec_value_def power_int_def if_True)
next
  case False
  then have n: "(0 \<le> e) = False" by simp
  show ?thesis by (simp only: dec_value_def power_int_def n if_False divide_inverse power_inverse)
qed

lemma dec_value_shift: "m mod 10 = 0 \<Longrightarrow> dec_value (m div 10) (e + 1) = dec_value m e"
proof -
  assume "m mod 10 = 0"
  then have m: "m = 10 * (m div 10)" by presburger
  have "dec_value (m div 10) (e + 1) = of_int (m div 10) * (10 powi e * 10)"
    by (simp add: dec_value_powi power_int_add)
  also have "\<dots> = of_int (10 * (m div 10)) * 10 powi e" by simp
  also have "\<dots> = dec_value m e" using m by (simp add: dec_value_powi)
  finally show ?thesis .
qed

lemma dec_value_shift_nat:
  assumes "s mod 10 = 0"
  shows "dec_value (int (s div 10)) (e + 1) = dec_value (int s) e"
proof -
  from assms have "int s mod 10 = 0" by presburger
  moreover have "int (s div 10) = int s div 10" by presburger
  ultimately show ?thesis using dec_value_shift [of "int s" e] by (simp only:)
qed

lemma strip_zeros_value:
  "strip_zeros s e = (s', e') \<Longrightarrow> dec_value (int s') e' = dec_value (int s) e"
proof (induction s e rule: strip_zeros.induct)
  case (1 s e)
  show ?case
  proof (cases "s \<noteq> 0 \<and> s mod 10 = 0")
    case True
    have "strip_zeros s e = strip_zeros (s div 10) (e + 1)"
      using True by (subst strip_zeros.simps) simp
    with "1.prems" have "strip_zeros (s div 10) (e + 1) = (s', e')" by (simp only:)
    from "1.IH" [OF True this]
    have "dec_value (int s') e' = dec_value (int (s div 10)) (e + 1)" .
    also have "\<dots> = dec_value (int s) e"
      using True by (intro dec_value_shift_nat) blast
    finally show ?thesis .
  next
    case False
    then have "strip_zeros s e = (s, e)"
      by (intro strip_zeros_done) auto
    with "1.prems" show ?thesis by simp
  qed
qed

lemma dec_value_neg: "dec_value (- m) e = - dec_value m e"
  by (simp add: dec_value_def)

lemma canonical_value: "\<exists>m' e'. canonical (Fin m e) = Fin m' e' \<and> dec_value m' e' = dec_value m e"
proof (cases "m = 0")
  case True
  then show ?thesis by (simp add: make_finite_def dec_value_def)
next
  case False
  obtain s' e' where st: "strip_zeros (nat \<bar>m\<bar>) e = (s', e')" by (cases "strip_zeros (nat \<bar>m\<bar>) e")
  from strip_zeros_value [OF st] have v: "dec_value (int s') e' = dec_value \<bar>m\<bar> e" by simp
  show ?thesis
  proof (cases "m < 0")
    case True
    with False st have "canonical (Fin m e) = Fin (- int s') e'" by (simp add: make_finite_def)
    moreover from v True have "dec_value (- int s') e' = dec_value m e"
      using dec_value_neg [of "int s'" e'] dec_value_neg [of m e] by simp
    ultimately show ?thesis by blast
  next
    case nonneg: False
    with False st have "canonical (Fin m e) = Fin (int s') e'" by (simp add: make_finite_def)
    moreover from v nonneg have "dec_value (int s') e' = dec_value m e" by simp
    ultimately show ?thesis by blast
  qed
qed

lemma within_range_canonical: "within_range (canonical x) b = within_range x b"
proof (cases x)
  case (Fin m e)
  from canonical_value [of m e] obtain m' e' where
    "canonical (Fin m e) = Fin m' e'" "dec_value m' e' = dec_value m e" by blast
  with Fin show ?thesis by simp
qed simp_all

section \<open>The directions link\<close>

lemma range_guard:
  "(isNaN x \<or> num_less x (Fin (- b) 0) \<or> num_less (Fin b 0) x) \<longleftrightarrow> \<not> within_range x b"
  by (cases x) (auto simp: dec_value_def)

text \<open>
  A number field reads back as itself: the handler's \<^verbatim>\<open>parseFloat(String(x))\<close> of a
  number \<open>x\<close> is \<open>x\<close>, and its text is the text of \<open>x\<close>.
\<close>

lemma parse_number_field: "parseFloat_String r (JNum x) = Inr (canonical x)"
  by (simp add: parseFloat_String_def literal_value_Number_toString)

text \<open>
  This is the text of the number read by \<open>parseFloat\<close>, for every rounding that leaves the
  decimal of that number as it is (a binary64 value is the nearest one to itself).
\<close>

lemma parse_number_field_text:
  assumes "\<And>m e. canonical x = Fin m e \<Longrightarrow> r m e = Fin m e"
  shows "parseFloat_String r (JNum x) = and_then (ToString (JNum x)) (\<lambda>str. Inr (parseFloat r str))"
proof -
  have "parseFloat r (Number_toString x) = canonical x"
    using assms
    by (cases "canonical x") (simp_all add: parseFloat_def literal_value_Number_toString)
  then show ?thesis
    by (simp add: parse_number_field and_then_def)
qed

lemma positive_toString_stripped:
  "0 < s \<Longrightarrow> strip_zeros s e = (s', e') \<Longrightarrow> positive_toString s' e' = positive_toString s e"
proof -
  assume pos: "0 < s" and st: "strip_zeros s e = (s', e')"
  from strip_zeros_result [OF pos st] have "s' mod 10 \<noteq> 0" by simp
  then have "strip_zeros s' e' = (s', e')" by (intro strip_zeros_done) simp
  with st show ?thesis by (simp add: positive_toString_def)
qed

lemma Number_toString_canonical: "Number_toString (canonical x) = Number_toString x"
proof (cases x)
  case (Fin m e)
  consider (zero) "m = 0" | (neg) "m < 0" | (pos) "0 < m" by linarith
  then show ?thesis
  proof cases
    case zero
    with Fin show ?thesis by (simp add: make_finite_def)
  next
    case neg
    then have a: "nat \<bar>m\<bar> = nat (- m)" and p: "0 < nat (- m)" by simp_all
    obtain s' e' where st: "strip_zeros (nat (- m)) e = (s', e')" by (cases "strip_zeros (nat (- m)) e")
    from strip_zeros_result [OF p st] have sp: "0 < s'" by simp
    have "canonical x = Fin (- int s') e'"
      using Fin neg st by (simp add: a make_finite_def)
    then have "Number_toString (canonical x) = ''-'' @ positive_toString s' e'"
      using sp by simp
    also have "\<dots> = ''-'' @ positive_toString (nat (- m)) e"
      using positive_toString_stripped [OF p st] by simp
    also have "\<dots> = Number_toString x" using Fin neg by simp
    finally show ?thesis .
  next
    case pos
    then have a: "nat \<bar>m\<bar> = nat m" and p: "0 < nat m" by simp_all
    obtain s' e' where st: "strip_zeros (nat m) e = (s', e')" by (cases "strip_zeros (nat m) e")
    from strip_zeros_result [OF p st] have sp: "0 < s'" by simp
    have "canonical x = Fin (int s') e'"
      using Fin pos st by (simp add: a make_finite_def)
    then have "Number_toString (canonical x) = positive_toString s' e'"
      using sp by simp
    also have "\<dots> = positive_toString (nat m) e"
      using positive_toString_stripped [OF p st] by simp
    also have "\<dots> = Number_toString x" using Fin pos by simp
    finally show ?thesis .
  qed
qed simp_all

lemma handleGetDirections_rejects:
  assumes "parseFloat_String r (lat station) = Inr la"
      and "parseFloat_String r (lng station) = Inr lo"
      and "\<not> within_range la 90 \<or> \<not> within_range lo 180"
  shows "handleGetDirections r station = Inr [ConsoleError ''Invalid coordinates'']"
proof -
  from assms(3)
  have "(isNaN la \<or> num_less la (Fin (- 90) 0) \<or> num_less (Fin 90 0) la) \<or>
        (isNaN lo \<or> num_less lo (Fin (- 180) 0) \<or> num_less (Fin 180 0) lo)"
    using range_guard [of la 90] range_guard [of lo 180] by simp
  then show ?thesis
    by (auto simp: handleGetDirections_def and_then_def assms(1,2))
qed

lemma isNaN_range: "isNaN x \<Longrightarrow> \<not> within_range x b"
  by (cases x) simp_all

text \<open>
  C5. Let \<open>la\<close> and \<open>lo\<close> be the numbers the handler reads from the two fields, however the
  engine rounds what it reads. When one of them is NaN, or \<open>la\<close> does not lie in
  \<open>[-90, 90]\<close>, or \<open>lo\<close> does not lie in \<open>[-180, 180]\<close>, \<open>handleGetDirections\<close> builds no
  address and does not call \<^verbatim>\<open>window.open\<close>: all it does is log the error. For a record
  whose two fields are numbers, the numbers read are the fields themselves: the handler
  rejects as soon as one of the two fields is NaN or outside its interval.
\<close>

theorem directions_rejected:
  "(parseFloat_String r (lat station) = Inr la \<and> parseFloat_String r (lng station) = Inr lo \<and>
    (isNaN la \<or> isNaN lo \<or> \<not> within_range la 90 \<or> \<not> within_range lo 180)
    \<longrightarrow> handleGetDirections r station = Inr [ConsoleError ''Invalid coordinates'']) \<and>
   (lat station = JNum x \<and> lng station = JNum y \<and>
    (isNaN x \<or> isNaN y \<or> \<not> within_range x 90 \<or> \<not> within_range y 180)
    \<longrightarrow> handleGetDirections r station = Inr [ConsoleError ''Invalid coordinates''])"
proof (intro conjI impI)
  assume a: "parseFloat_String r (lat station) = Inr la \<and>
             parseFloat_String r (lng station) = Inr lo \<and>
             (isNaN la \<or> isNaN lo \<or> \<not> within_range la 90 \<or> \<not> within_range lo 180)"
  then have "\<not> within_range la 90 \<or> \<not> within_range lo 180"
    using isNaN_range [of la 90] isNaN_range [of lo 180] by blast
  with a show "handleGetDirections r station = Inr [ConsoleError ''Invalid coordinates'']"
    using handleGetDirections_rejects by blast
next
  assume a: "lat station = JNum x \<and> lng station = JNum y \<and>
             (isNaN x \<or> isNaN y \<or> \<not> within_range x 90 \<or> \<not> within_range y 180)"
  then have "\<not> within_range x 90 \<or> \<not> within_range y 180"
    using isNaN_range [of x 90] isNaN_range [of y 180] by blast
  then have "\<not> within_range (canonical x) 90 \<or> \<not> within_range (canonical y) 180"
    by (simp add: within_range_canonical)
  moreover from a have "parseFloat_String r (lat station) = Inr (canonical x)"
                       "parseFloat_String r (lng station) = Inr (canonical y)"
    by (simp_all add: parse_number_field)
  ultimately show "handleGetDirections r station = Inr [ConsoleError ''Invalid coordinates'']"
    using handleGetDirections_rejects by blast
qed

text \<open>
  The theorem at latitude 999, longitude -80.19, and at a latitude that is a text with no
  number in front, which reads as NaN whatever the rounding.
\<close>

theorem directions_rejected_witness:
  "\<forall>r. lat out_of_range_station = JNum (Fin 999 0) \<and>
       lng out_of_range_station = JNum (Fin (- 8019) (- 2)) \<and>
       \<not> within_range (Fin 999 0) 90 \<and>
       handleGetDirections r out_of_range_station = Inr [ConsoleError ''Invalid coordinates''] \<and>
       parseFloat_String r (lat ((hd stations)\<lparr>lat := JStr ''north''\<rparr>)) = Inr NaN \<and>
       parseFloat_String r (lng ((hd stations)\<lparr>lat := JStr ''north''\<rparr>))
         = Inr (Fin (- 801918) (- 4)) \<and>
       handleGetDirections r ((hd stations)\<lparr>lat := JStr ''north''\<rparr>)
         = Inr [ConsoleError ''Invalid coordinates'']"
proof
  fix r
  have f: "lat out_of_range_station = JNum (Fin 999 0)"
          "lng out_of_range_station = JNum (Fin (- 8019) (- 2))"
    by (simp_all add: out_of_range_station_def)
  have h: "\<not> within_range (Fin 999 0) 90"
    by (simp add: dec_value_def)
  have q: "parseFloat_String r (lat ((hd stations)\<lparr>lat := JStr ''north''\<rparr>)) = Inr NaN"
    by (simp add: parseFloat_String_def parseFloat_def js_eval)
  have q': "parseFloat_String r (lng ((hd stations)\<lparr>lat := JStr ''north''\<rparr>))
              = Inr (Fin (- 801918) (- 4))"
    by (simp add: stations_def parseFloat_String_def js_eval)
  from f h
  have r1: "handleGetDirections r out_of_range_station = Inr [ConsoleError ''Invalid coordinates'']"
    using directions_rejected [of r out_of_range_station NaN NaN "Fin 999 0" "Fin (- 8019) (- 2)"]
    by blast
  from q q'
  have r2: "handleGetDirections r ((hd stations)\<lparr>lat := JStr ''north''\<rparr>)
              = Inr [ConsoleError ''Invalid coordinates'']"
    using directions_rejected [of r "(hd stations)\<lparr>lat := JStr ''north''\<rparr>" NaN
                                  "Fin (- 801918) (- 4)" NaN NaN]
    by simp
  from f h q q' r1 r2
  show "lat out_of_range_station = JNum (Fin 999 0) \<and>
        lng out_of_range_station = JNum (Fin (- 8019) (- 2)) \<and>
        \<not> within_range (Fin 999 0) 90 \<and>
        handleGetDirections r out_of_range_station = Inr [ConsoleError ''Invalid coordinates''] \<and>
        parseFloat_String r (lat ((hd stations)\<lparr>lat := JStr ''north''\<rparr>)) = Inr NaN \<and>
        parseFloat_String r (lng ((hd stations)\<lparr>lat := JStr ''north''\<rparr>))
          = Inr (Fin (- 801918) (- 4)) \<and>
        handleGetDirections r ((hd stations)\<lparr>lat := JStr ''north''\<rparr>)
          = Inr [ConsoleError ''Invalid coordinates'']"
    by blast
qed

subsection \<open>Percent-decoding undoes percent-encoding\<close>

lemma hex_value_digit: "d < 16 \<Longrightarrow> hex_value (hex_digit d) = Some d"
proof -
  assume "d < 16"
  then have "d = 0 \<or> d = 1 \<or> d = 2 \<or> d = 3 \<or> d = 4 \<or> d = 5 \<or> d = 6 \<or> d = 7 \<or>
             d = 8 \<or> d = 9 \<or> d = 10 \<or> d = 11 \<or> d = 12 \<or> d = 13 \<or> d = 14 \<or> d = 15"
    by arith
  then show ?thesis
    by (elim disjE) (simp_all add: hex_value_def hex_digit_def)
qed

lemma read_escape_percent: "b < 256 \<Longrightarrow> read_escape (percent b @ r) = Some (b, r)"
proof -
  assume b: "b < 256"
  then have "b div 16 < 16" "b mod 16 < 16" by auto
  then show ?thesis
    by (simp add: read_escape_def percent_def hex_value_digit)
qed

lemma decode_unit_percent:
  assumes "b < 256"
  shows "decode_unit (percent b @ r) =
           (if b < 128 then Some (char_of b, r)
            else if b = 194 \<or> b = 195 then
              (case read_escape r of
                 None \<Rightarrow> None
               | Some (b', rest') \<Rightarrow>
                   (if 128 \<le> b' \<and> b' < 192
                    then Some (char_of ((b - 192) * 64 + (b' - 128)), rest')
                    else None))
            else None)"
proof -
  obtain t where s: "percent b @ r = CHR ''%'' # t"
    by (simp add: percent_def)
  have re: "read_escape (CHR ''%'' # t) = Some (b, r)"
    using read_escape_percent [OF assms, of r] by (simp add: s)
  show ?thesis
    unfolding s decode_unit_def by (simp add: re)
qed

lemma decode_unit_encode: "decode_unit (encode_unit c @ r) = Some (c, r)"
proof (cases "uriUnreserved c")
  case True
  then have "c \<noteq> CHR ''%''"
    by (auto simp: uriUnreserved_def)
  with True show ?thesis
    by (simp add: decode_unit_def encode_unit_def)
next
  case False
  let ?n = "of_char c :: nat"
  have n: "?n < 256" by simp
  show ?thesis
  proof (cases "?n < 128")
    case True
    with False show ?thesis
      by (simp add: encode_unit_def decode_unit_percent [OF n])
  next
    case ge: False
    let ?b = "192 + ?n div 64" and ?b' = "128 + ?n mod 64"
    have "\<And>k::nat. k < 256 \<Longrightarrow> \<not> k < 128 \<Longrightarrow> 192 + k div 64 = 194 \<or> 192 + k div 64 = 195"
      by arith
    from this [OF n ge] have b: "?b = 194 \<or> ?b = 195" .
    then have b256: "?b < 256" by auto
    have b'256: "?b' < 256" by simp
    have val: "(?b - 192) * 64 + (?b' - 128) = ?n" by simp
    have "decode_unit (percent ?b @ percent ?b' @ r) = Some (char_of ?n, r)"
      unfolding decode_unit_percent [OF b256] read_escape_percent [OF b'256] val
      using b by auto
    with False ge show ?thesis
      by (simp add: encode_unit_def Let_def)
  qed
qed

lemma Decode_Nil: "Decode [] = Some []"
  by (simp add: Decode.simps)

lemma encode_unit_nonempty: "encode_unit c \<noteq> []"
  by (simp add: encode_unit_def percent_def Let_def)

lemma Decode_encode_unit: "Decode (encode_unit c @ r) = map_option ((#) c) (Decode r)"
  by (subst Decode.simps) (simp add: decode_unit_encode encode_unit_nonempty)

lemma Decode_Encode_append: "Decode (Encode s @ r) = map_option ((@) s) (Decode r)"
proof (induction s)
  case Nil
  show ?case by (simp add: Encode_def option.map_ident)
next
  case (Cons c cs)
  have "Decode (Encode (c # cs) @ r) = Decode (encode_unit c @ (Encode cs @ r))"
    by (simp add: Encode_def)
  also have "\<dots> = map_option ((#) c) (Decode (Encode cs @ r))"
    by (rule Decode_encode_unit)
  also have "\<dots> = map_option ((@) (c # cs)) (Decode r)"
    by (cases "Decode r") (simp_all add: Cons.IH)
  finally show ?case .
qed

lemma Decode_Encode: "Decode (Encode s) = Some s"
  using Decode_Encode_append [of s "[]"] by (simp add: Decode_Nil)

lemma Decode_comma: "Decode (CHR '','' # r) = map_option ((#) CHR '','') (Decode r)"
  by (subst Decode.simps) (simp add: decode_unit_def)

lemma handleGetDirections_accepts:
  assumes "parseFloat_String r (lat station) = Inr la"
      and "parseFloat_String r (lng station) = Inr lo"
      and "within_range la 90" and "within_range lo 180"
  shows "handleGetDirections r station =
           Inr [WindowOpen (''https://maps.google.com/?q='' @ Encode (Number_toString la)
                              @ '','' @ Encode (Number_toString lo))
                           ''_blank'']"
proof -
  from assms(3,4)
  have "\<not> (isNaN la \<or> num_less la (Fin (- 90) 0) \<or> num_less (Fin 90 0) la)"
       "\<not> (isNaN lo \<or> num_less lo (Fin (- 180) 0) \<or> num_less (Fin 180 0) lo)"
    using range_guard [of la 90] range_guard [of lo 180] by simp_all
  then show ?thesis
    by (simp add: handleGetDirections_def and_then_def assms(1,2) encodeURIComponent_def)
qed

text \<open>
  C9. For a record whose latitude and longitude are numbers in \<open>[-90, 90]\<close> and
  \<open>[-180, 180]\<close>, \<open>handleGetDirections\<close> opens exactly one address, in a new context:
  \<^verbatim>\<open>https://maps.google.com/?q=\<close> followed by the percent-encoded text of the latitude,
  a comma, and the percent-encoded text of the longitude. Percent-decoding what follows
  \<^verbatim>\<open>q=\<close> gives the text of the latitude, a comma and the text of the longitude, and
  nothing else.
\<close>

theorem directions_url:
  assumes "lat station = JNum la" "lng station = JNum lo"
      and "within_range la 90" "within_range lo 180"
  shows "handleGetDirections r station =
           Inr [WindowOpen (''https://maps.google.com/?q='' @ Encode (Number_toString la)
                              @ '','' @ Encode (Number_toString lo))
                           ''_blank''] \<and>
         Decode (Encode (Number_toString la) @ '','' @ Encode (Number_toString lo))
           = Some (Number_toString la @ '','' @ Number_toString lo)"
proof -
  have la: "parseFloat_String r (lat station) = Inr (canonical la)"
    and lo: "parseFloat_String r (lng station) = Inr (canonical lo)"
    using assms(1,2) by (simp_all add: parse_number_field)
  have "within_range (canonical la) 90" "within_range (canonical lo) 180"
    using assms(3,4) by (simp_all add: within_range_canonical)
  from handleGetDirections_accepts [OF la lo this]
  have url: "handleGetDirections r station =
           Inr [WindowOpen (''https://maps.google.com/?q='' @ Encode (Number_toString la)
                              @ '','' @ Encode (Number_toString lo)) ''_blank'']"
    by (simp add: Number_toString_canonical)
  have "Decode (Encode (Number_toString la) @ '','' @ Encode (Number_toString lo))
          = Some (Number_toString la @ '','' @ Number_toString lo)"
    by (simp add: Decode_Encode_append Decode_comma Decode_Encode)
  with url show ?thesis by simp
qed

text \<open>The theorem at the first station of the application.\<close>

theorem directions_url_witness:
  "\<forall>r. lat (hd stations) = JNum (Fin 257617 (- 4)) \<and>
       lng (hd stations) = JNum (Fin (- 801918) (- 4)) \<and>
       within_range (Fin 257617 (- 4)) 90 \<and>
       within_range (Fin (- 801918) (- 4)) 180 \<and>
       handleGetDirections r (hd stations) =
         Inr [WindowOpen ''https://maps.google.com/?q=25.7617,-80.1918'' ''_blank''] \<and>
       Decode ''25.7617,-80.1918'' = Some ''25.7617,-80.1918''"
proof
  fix r
  have f1: "lat (hd stations) = JNum (Fin 257617 (- 4))"
    and f2: "lng (hd stations) = JNum (Fin (- 801918) (- 4))"
    by (simp_all add: stations_def)
  have h1: "within_range (Fin 257617 (- 4)) 90"
    and h2: "within_range (Fin (- 801918) (- 4)) 180"
    by (simp_all add: dec_value_def)
  have t1: "Encode ''25.7617'' = ''25.7617''"
    and t2: "Encode ''-80.1918'' = ''-80.1918''"
    and t3: "Number_toString (Fin 257617 (- 4)) = ''25.7617''"
    and t4: "Number_toString (Fin (- 801918) (- 4)) = ''-80.1918''"
    by (simp_all add: js_eval)
  from directions_url [OF f1 f2 h1 h2, of r]
  have "handleGetDirections r (hd stations) =
          Inr [WindowOpen ''https://maps.google.com/?q=25.7617,-80.1918'' ''_blank'']"
       "Decode ''25.7617,-80.1918'' = Some ''25.7617,-80.1918''"
    unfolding t3 t4 t1 t2 by simp_all
  with f1 f2 h1 h2
  show "lat (hd stations) = JNum (Fin 257617 (- 4)) \<and>
        lng (hd stations) = JNum (Fin (- 801918) (- 4)) \<and>
        within_range (Fin 257617 (- 4)) 90 \<and>
        within_range (Fin (- 801918) (- 4)) 180 \<and>
        handleGetDirections r (hd stations) =
          Inr [WindowOpen ''https://maps.google.com/?q=25.7617,-80.1918'' ''_blank''] \<and>
        Decode ''25.7617,-80.1918'' = Some ''25.7617,-80.1918''"
    by blast
qed

text \<open>
  The same for fields of any type, over the numbers the handler reads from them, however
  the engine rounds what it reads.
\<close>

lemma directions_url_parsed:
  assumes "parseFloat_String r (lat station) = Inr la"
      and "parseFloat_String r (lng station) = Inr lo"
      and "within_range la 90" and "within_range lo 180"
  shows "\<exists>a b. handleGetDirections r station =
           Inr [WindowOpen (''https://maps.google.com/?q='' @ Encode a @ '','' @ Encode b) ''_blank''] \<and>
         a = Number_toString la \<and> b = Number_toString lo \<and>
         Decode (Encode a @ '','' @ Encode b) = Some (a @ '','' @ b)"
  using handleGetDirections_accepts [OF assms]
  by (simp add: Decode_Encode_append Decode_comma Decode_Encode)

text \<open>A field that cannot be turned into text ends the handler with its exception.\<close>

lemma handleGetDirections_raises:
  "parseFloat_String r (lat station) = Inl e \<Longrightarrow> handleGetDirections r station = Inl e"
  by (simp add: handleGetDirections_def and_then_def)

text \<open>
  C2. The guard is not the only path: the second \<^verbatim>\<open>handleGetDirections\<close> of
  \<^verbatim>\<open>StationDetails.tsx\<close> opens an address made of the raw fields. At latitude 999 and
  longitude -80.19 the guarded handler opens nothing and the second one opens
  \<^verbatim>\<open>https://maps.google.com/?q=999,-80.19\<close>; a latitude that is a string goes into the
  address as it is.
\<close>

theorem directions_second_unguarded:
  "handleGetDirections r out_of_range_station = Inr [ConsoleError ''Invalid coordinates''] \<and>
   handleGetDirections_second out_of_range_station
     = Inr [WindowOpen ''https://maps.google.com/?q=999,-80.19'' ''_blank''] \<and>
   handleGetDirections_second ((hd stations)\<lparr>lat := JStr ''0&z=<b>''\<rparr>)
     = Inr [WindowOpen ''https://maps.google.com/?q=0&z=<b>,-80.1918'' ''_blank'']"
  by (simp add: handleGetDirections_second_def handleGetDirections_def parseFloat_String_def
                out_of_range_station_def stations_def js_eval)

section \<open>Navigation and the charging session\<close>

lemma dispatch_keeps_charging: "isCharging s \<Longrightarrow> isCharging (dispatch e s)"
  by (cases e)
     (auto simp: handleStationSelect_def handleStartCharging_def handleQRScan_def
           split: option.splits)

lemma run_keeps_charging: "isCharging s \<Longrightarrow> isCharging (run es s)"
  by (induction es arbitrary: s) (simp_all add: dispatch_keeps_charging)

lemma dispatch_charging_change:
  "isCharging (dispatch e s) \<noteq> isCharging s \<Longrightarrow> \<exists>p. e = ScanResult p"
  by (cases e)
     (auto simp: handleStationSelect_def handleStartCharging_def handleQRScan_def
           split: option.splits if_splits)

text \<open>
  C4 (as the code has it). \<open>handleStartCharging\<close> has no guard of its own: whenever it
  runs, the view becomes the scanner. The guard is the charge button's: in the details
  view of a station whose status is not \<^verbatim>\<open>available\<close> the button is disabled, so
  activating it changes nothing and the view remains the details view. From the map,
  selecting a station whose status is \<^verbatim>\<open>available\<close> and then activating the button
  reaches the scanner.
\<close>

theorem startCharging_guard_at_button:
  "currentView (handleStartCharging s) = View_scanner \<and>
   (currentView s = View_details \<and> selectedStation s = Some station \<and>
      status station \<noteq> JStr ''available'' \<longrightarrow>
        charge_button_disabled station \<and> dispatch ChargeButtonClick s = s) \<and>
   (status station' = JStr ''available'' \<longrightarrow>
      currentView (dispatch (StationSelect station') initial_state) = View_details \<and>
      selectedStation (dispatch (StationSelect station') initial_state) = Some station' \<and>
      currentView (run [StationSelect station', ChargeButtonClick] initial_state) = View_scanner)"
  by (simp add: handleStartCharging_def charge_button_disabled_def initial_state_def
                handleStationSelect_def)

text \<open>
  The theorem at the busy second station (selected, then the button activated: still the
  details view) and at the available first station (the scanner is reached).
\<close>

theorem startCharging_guard_at_button_witness:
  "status (stations ! 1) = JStr ''busy'' \<and>
   currentView (dispatch (StationSelect (stations ! 1)) initial_state) = View_details \<and>
   dispatch ChargeButtonClick (dispatch (StationSelect (stations ! 1)) initial_state)
     = dispatch (StationSelect (stations ! 1)) initial_state \<and>
   status (hd stations) = JStr ''available'' \<and>
   currentView (run [StationSelect (hd stations), ChargeButtonClick] initial_state) = View_scanner"
proof -
  let ?s = "dispatch (StationSelect (stations ! 1)) initial_state"
  have busy: "status (stations ! 1) = JStr ''busy''"
    by (simp add: stations_def)
  have avail: "status (hd stations) = JStr ''available''"
    by (simp add: stations_def)
  have pre: "currentView ?s = View_details \<and> selectedStation ?s = Some (stations ! 1) \<and>
             status (stations ! 1) \<noteq> JStr ''available''"
    by (simp add: initial_state_def handleStationSelect_def stations_def)
  note at_inputs = startCharging_guard_at_button [of ?s "stations ! 1" "hd stations"]
  from at_inputs pre have stay: "dispatch ChargeButtonClick ?s = ?s"
    by blast
  from at_inputs avail
  have reach: "currentView (run [StationSelect (hd stations), ChargeButtonClick] initial_state) = View_scanner"
    by blast
  from pre have details: "currentView ?s = View_details"
    by blast
  from busy details stay avail reach show ?thesis
    by blast
qed

text \<open>
  The handler itself does not keep the details view for a busy station: run in the details
  view of the busy second station, it moves to the scanner.
\<close>

theorem startCharging_unguarded_counterexample:
  "status (stations ! 1) = JStr ''busy'' \<and>
   currentView (handleStartCharging
      \<lparr>currentView = View_details, selectedStation = Some (stations ! 1), isCharging = False\<rparr>)
     = View_scanner \<and>
   handleStartCharging
      \<lparr>currentView = View_details, selectedStation = Some (stations ! 1), isCharging = False\<rparr>
     \<noteq> \<lparr>currentView = View_details, selectedStation = Some (stations ! 1), isCharging = False\<rparr>"
  by (simp add: handleStartCharging_def stations_def)

text \<open>
  C8. In the scanner view, a scan result with any payload runs \<open>handleQRScan\<close>: the view
  becomes the map and \<open>isCharging\<close> becomes true, whatever the payload is; the selected
  station is kept.
\<close>

theorem scan_result_starts_session:
  "currentView s = View_scanner \<Longrightarrow>
     dispatch (ScanResult payload) s = handleQRScan payload s \<and>
     currentView (dispatch (ScanResult payload) s) = View_map \<and>
     isCharging (dispatch (ScanResult payload) s) \<and>
     selectedStation (dispatch (ScanResult payload) s) = selectedStation s"
  by (simp add: handleQRScan_def)

text \<open>
  The theorem in the scanner reached from the details of the available first station, with
  the payload \<^verbatim>\<open>SESSION-OK\<close>.
\<close>

theorem scan_result_starts_session_witness:
  "currentView (run [StationSelect (hd stations), ChargeButtonClick] initial_state) = View_scanner \<and>
   \<not> isCharging (run [StationSelect (hd stations), ChargeButtonClick] initial_state) \<and>
   currentView (dispatch (ScanResult ''SESSION-OK'')
                  (run [StationSelect (hd stations), ChargeButtonClick] initial_state)) = View_map \<and>
   isCharging (dispatch (ScanResult ''SESSION-OK'')
                 (run [StationSelect (hd stations), ChargeButtonClick] initial_state))"
proof -
  have h: "currentView (run [StationSelect (hd stations), ChargeButtonClick] initial_state) = View_scanner"
    by (simp add: initial_state_def stations_def handleStationSelect_def handleStartCharging_def
                  charge_button_disabled_def)
  have c: "\<not> isCharging (run [StationSelect (hd stations), ChargeButtonClick] initial_state)"
    by (simp add: initial_state_def stations_def handleStationSelect_def handleStartCharging_def
                  charge_button_disabled_def)
  from scan_result_starts_session [OF h, of "''SESSION-OK''"] h c show ?thesis by simp
qed

text \<open>
  C10. \<open>isCharging\<close> starts false; once true it stays true along every sequence of events
  (navigation, selection, back, scan); and an event that changes it is a scan result, which
  changes it from false to true.
\<close>

theorem isCharging_monotone:
  "\<not> isCharging initial_state \<and>
   (isCharging s \<longrightarrow> isCharging (run es s)) \<and>
   (isCharging (dispatch e s') \<noteq> isCharging s' \<longrightarrow>
      (\<exists>payload. e = ScanResult payload) \<and> \<not> isCharging s' \<and> isCharging (dispatch e s'))"
  using run_keeps_charging [of s es] dispatch_charging_change [of e s']
    dispatch_keeps_charging [of s' e]
  by (auto simp: initial_state_def)

text \<open>
  The theorem at the state after a first scan, followed by six further events, and at the
  scan that started the session.
\<close>

theorem isCharging_monotone_witness:
  "isCharging (dispatch (ScanResult ''SESSION-OK'') (dispatch NavScan initial_state)) \<and>
   isCharging (run [NavScan, ScannerBack, NavProfile, ProfileBack, StationSelect (hd stations), DetailsBack]
                 (dispatch (ScanResult ''SESSION-OK'') (dispatch NavScan initial_state))) \<and>
   isCharging (dispatch (ScanResult ''SESSION-OK'') (dispatch NavScan initial_state))
     \<noteq> isCharging (dispatch NavScan initial_state)"
  using isCharging_monotone [of "dispatch (ScanResult ''SESSION-OK'') (dispatch NavScan initial_state)"
      "[NavScan, ScannerBack, NavProfile, ProfileBack, StationSelect (hd stations), DetailsBack]"
      "ScanResult ''SESSION-OK''" "dispatch NavScan initial_state"]
  by (simp add: initial_state_def handleQRScan_def)


end
